theory Spec2Isabelle
  imports Complex_Main "HOL-Library.AList" "HOL-Library.Multiset"
    "HOL-Library.Char_ord" "HOL-Library.List_Lexorder"
begin

section \<open>Exceptions\<close>

text \<open>
  The exception classes the lesson files raise, together with the built-in classes
  they derive from.  \<open>DecimalOverflow\<close> is \<open>decimal.Overflow\<close>; it derives from
  \<open>decimal.DecimalException\<close> through the signal classes \<open>Inexact\<close> and \<open>Rounded\<close>,
  which are left out here.  Classes of the same name declared in two lessons are different
  classes and are kept apart by a suffix (9 for lesson 9, 10 for lesson 10).
\<close>

datatype exn =
    Exception
  | LookupError
  | KeyError
  | ValueError
  | RuntimeError
  | InsufficientFundsError9
  | AccountNotFoundError9
  | DuplicateAccountError9
  | BankError
  | DuplicateAccountError10
  | AccountNotFoundError10
  | InsufficientFundsError10
  | DatabaseError
  | ArithmeticError
  | OverflowError
  | DecimalException
  | DecimalOverflow

text \<open>The direct base class, as written in each \<open>class X(Y)\<close> header.\<close>

fun base :: "exn \<Rightarrow> exn option" where
  "base Exception = None"
| "base LookupError = Some Exception"
| "base KeyError = Some LookupError"
| "base ValueError = Some Exception"
| "base RuntimeError = Some Exception"
| "base InsufficientFundsError9 = Some RuntimeError"
| "base AccountNotFoundError9 = Some KeyError"
| "base DuplicateAccountError9 = Some KeyError"
| "base BankError = Some Exception"
| "base DuplicateAccountError10 = Some BankError"
| "base AccountNotFoundError10 = Some BankError"
| "base InsufficientFundsError10 = Some BankError"
| "base DatabaseError = Some Exception"
| "base ArithmeticError = Some Exception"
| "base OverflowError = Some ArithmeticError"
| "base DecimalException = Some ArithmeticError"
| "base DecimalOverflow = Some DecimalException"

text \<open>
  \<open>derives c d\<close>: class \<open>c\<close> is \<open>d\<close> or a subclass of it (what \<open>except d\<close> catches).
  No chain of bases above is longer than three steps.
\<close>

definition derives :: "exn \<Rightarrow> exn \<Rightarrow> bool" where
  "derives c d \<longleftrightarrow>
     c = d \<or> base c = Some d \<or> Option.bind (base c) base = Some d
     \<or> Option.bind (Option.bind (base c) base) base = Some d"

section \<open>Decimal arithmetic under the context of the lesson files\<close>

text \<open>
  Lessons 9 and 10 keep money in \<open>decimal.Decimal\<close> and set \<open>getcontext().prec = 28\<close>;
  the rest of the context is Python's default: rounding \<open>ROUND_HALF_EVEN\<close>,
  \<open>Emax = 999999\<close>, \<open>Emin = -999999\<close>, no clamping, and \<open>Overflow\<close> trapped (raised).

  A finite \<open>Decimal\<close> is a signed coefficient and an exponent; its value is
  \<open>coeff * 10 ^ expo\<close>.  The constructor stores any such number exactly; only the
  results of arithmetic are rounded to the context.  The special values (\<open>NaN\<close>,
  the infinities) and the sign of zero are not modelled: every \<open>decimal\<close> here is a
  finite number.
\<close>

datatype decimal = Decimal (coeff: int) (expo: int)

definition val :: "decimal \<Rightarrow> rat" where
  "val d = of_int (coeff d) * 10 powi expo d"

definition prec :: int where
  "prec = 28"

definition Emax :: int where
  "Emax = 999999"

definition Emin :: int where
  "Emin = - 999999"

definition Etiny :: int where
  "Etiny = Emin - prec + 1"

definition Etop :: int where
  "Etop = Emax - prec + 1"

text \<open>\<open>dec_zero\<close> is the \<open>0\<close> and the \<open>Decimal("0")\<close> of the source.\<close>

definition dec_zero :: decimal where
  "dec_zero = Decimal 0 0"

text \<open>
  The exact sum and difference, at the smaller of the two exponents, and the exact
  negation.  Comparisons of \<open>Decimal\<close> are exact: they are the sign of the exact
  difference.
\<close>

definition exact_add :: "decimal \<Rightarrow> decimal \<Rightarrow> decimal" where
  "exact_add a b =
     (let e = min (expo a) (expo b)
      in Decimal (coeff a * 10 ^ nat (expo a - e) + coeff b * 10 ^ nat (expo b - e)) e)"

definition exact_sub :: "decimal \<Rightarrow> decimal \<Rightarrow> decimal" where
  "exact_sub a b =
     (let e = min (expo a) (expo b)
      in Decimal (coeff a * 10 ^ nat (expo a - e) - coeff b * 10 ^ nat (expo b - e)) e)"

definition exact_neg :: "decimal \<Rightarrow> decimal" where
  "exact_neg a = Decimal (- coeff a) (expo a)"

definition dec_lt :: "decimal \<Rightarrow> decimal \<Rightarrow> bool" where
  "dec_lt a b \<longleftrightarrow> coeff (exact_sub a b) < 0"

definition dec_le :: "decimal \<Rightarrow> decimal \<Rightarrow> bool" where
  "dec_le a b \<longleftrightarrow> coeff (exact_sub a b) \<le> 0"

text \<open>The number of decimal digits of a non-negative coefficient.\<close>

function ndigits :: "int \<Rightarrow> int" where
  "ndigits n = (if n < 10 then 1 else 1 + ndigits (n div 10))"
  by pat_completeness auto
termination
  by (relation "measure nat") auto

text \<open>
  \<open>ctx_fix\<close> is what the context does to an exact result (\<open>Decimal._fix\<close>).  A zero
  keeps its value.  Otherwise \<open>exp_min0\<close> is the exponent at which the number has
  \<open>prec\<close> digits; above \<open>Etop\<close> the number is beyond \<open>Emax\<close> and \<open>Overflow\<close> is raised.
  A number with digits below \<open>exp_min\<close> (that exponent, or \<open>Etiny\<close> for a subnormal)
  is rounded there, half to even: \<open>q\<close> are the digits kept, \<open>r\<close> the digits dropped.
  If rounding up gives one digit too many, the last digit is dropped and the
  exponent grows by one, which can overflow in its turn.
\<close>

definition ctx_fix :: "decimal \<Rightarrow> exn + decimal" where
  "ctx_fix d =
     (if coeff d = 0 then Inr (Decimal 0 (min (max (expo d) Etiny) Emax))
      else let exp_min0 = ndigits \<bar>coeff d\<bar> + expo d - prec
      in if exp_min0 > Etop then Inl DecimalOverflow
      else let exp_min = max exp_min0 Etiny
      in if expo d < exp_min then
           (let k = nat (exp_min - expo d);
                q = \<bar>coeff d\<bar> div 10 ^ k;
                r = \<bar>coeff d\<bar> mod 10 ^ k;
                up = (2 * r > 10 ^ k \<or> (2 * r = 10 ^ k \<and> odd q))
            in if up \<and> q + 1 \<ge> 10 ^ nat prec then
                 (if exp_min + 1 > Etop then Inl DecimalOverflow
                  else Inr (Decimal (sgn (coeff d) * ((q + 1) div 10)) (exp_min + 1)))
               else Inr (Decimal (sgn (coeff d) * (if up then q + 1 else q)) exp_min))
         else Inr d)"

text \<open>The operators \<open>+\<close>, \<open>-\<close> and unary \<open>-\<close> of \<open>Decimal\<close>: the exact result, then the context.\<close>

definition dec_add :: "decimal \<Rightarrow> decimal \<Rightarrow> exn + decimal" where
  "dec_add a b = ctx_fix (exact_add a b)"

definition dec_sub :: "decimal \<Rightarrow> decimal \<Rightarrow> exn + decimal" where
  "dec_sub a b = ctx_fix (exact_sub a b)"

definition dec_neg :: "decimal \<Rightarrow> exn + decimal" where
  "dec_neg a = ctx_fix (exact_neg a)"

text \<open>
  \<open>exact_in_context d\<close>: the context returns the exact result \<open>d\<close> with its value
  unchanged (no rounding, no overflow).
\<close>

definition exact_in_context :: "decimal \<Rightarrow> bool" where
  "exact_in_context d \<longleftrightarrow> (\<exists>r. ctx_fix d = Inr r \<and> val r = val d)"

section \<open>Lesson 9: Bank and Accounts\<close>

record account9 =
  account_id :: int
  owner :: string
  balance :: decimal

text \<open>
  \<open>Bank._accounts\<close> is a dict from account id to a mutable \<open>Account\<close> object.  It is an
  association list here (a dict keeps insertion order); a method that mutates an
  account returns the account's new state, which the caller stores back under its id.
  \<open>self.balance += amount\<close> evaluates the sum first, so when the sum raises the
  account is not changed.
\<close>

type_synonym bank9 = "(int \<times> account9) list"

definition deposit9 :: "account9 \<Rightarrow> decimal \<Rightarrow> exn + account9" where
  "deposit9 a amount =
     (if dec_le amount dec_zero then Inl ValueError
      else case dec_add (balance a) amount of
             Inl e \<Rightarrow> Inl e
           | Inr b \<Rightarrow> Inr (a\<lparr>balance := b\<rparr>))"

definition withdraw9 :: "account9 \<Rightarrow> decimal \<Rightarrow> exn + account9" where
  "withdraw9 a amount =
     (if dec_le amount dec_zero then Inl ValueError
      else if dec_lt (balance a) amount then Inl InsufficientFundsError9
      else case dec_sub (balance a) amount of
             Inl e \<Rightarrow> Inl e
           | Inr b \<Rightarrow> Inr (a\<lparr>balance := b\<rparr>))"

definition create_account9 :: "bank9 \<Rightarrow> int \<Rightarrow> string \<Rightarrow> decimal \<Rightarrow> exn + bank9" where
  "create_account9 bank aid own initial =
     (if map_of bank aid \<noteq> None then Inl DuplicateAccountError9
      else if dec_lt initial dec_zero then Inl ValueError
      else Inr (AList.update aid \<lparr>account_id = aid, owner = own, balance = initial\<rparr> bank))"

definition get_account9 :: "bank9 \<Rightarrow> int \<Rightarrow> exn + account9" where
  "get_account9 bank aid =
     (case map_of bank aid of
        None \<Rightarrow> Inl AccountNotFoundError9
      | Some acc \<Rightarrow> Inr acc)"

definition bank_deposit9 :: "bank9 \<Rightarrow> int \<Rightarrow> decimal \<Rightarrow> exn + bank9" where
  "bank_deposit9 bank aid amount =
     (case get_account9 bank aid of
        Inl e \<Rightarrow> Inl e
      | Inr acc \<Rightarrow>
          (case deposit9 acc amount of
             Inl e \<Rightarrow> Inl e
           | Inr acc' \<Rightarrow> Inr (AList.update aid acc' bank)))"

definition bank_withdraw9 :: "bank9 \<Rightarrow> int \<Rightarrow> decimal \<Rightarrow> exn + bank9" where
  "bank_withdraw9 bank aid amount =
     (case get_account9 bank aid of
        Inl e \<Rightarrow> Inl e
      | Inr acc \<Rightarrow>
          (case withdraw9 acc amount of
             Inl e \<Rightarrow> Inl e
           | Inr acc' \<Rightarrow> Inr (AList.update aid acc' bank)))"

definition get_balance9 :: "bank9 \<Rightarrow> int \<Rightarrow> exn + decimal" where
  "get_balance9 bank aid =
     (case get_account9 bank aid of Inl e \<Rightarrow> Inl e | Inr acc \<Rightarrow> Inr (balance acc))"

text \<open>
  \<open>Bank.transfer\<close>.  The result is the exception raised (\<open>None\<close> when the call returns)
  and the bank afterwards, since the call can raise after it has mutated an account.

  \<open>src\<close> and \<open>dst\<close> are references: when \<open>from_id = to_id\<close> they are the same object, so
  the destination seen by the deposit is the account already debited.  \<open>except
  Exception\<close> catches whatever \<open>dst.deposit\<close> raises; an exception of the rollback's own
  \<open>src.deposit\<close> leaves the handler as it is.
\<close>

definition transfer9 :: "bank9 \<Rightarrow> int \<Rightarrow> int \<Rightarrow> decimal \<Rightarrow> exn option \<times> bank9" where
  "transfer9 bank from_id to_id amount =
     (if dec_le amount dec_zero then (Some ValueError, bank)
      else case get_account9 bank from_id of
        Inl e \<Rightarrow> (Some e, bank)
      | Inr src \<Rightarrow>
        (case get_account9 bank to_id of
           Inl e \<Rightarrow> (Some e, bank)
         | Inr dst \<Rightarrow>
           (case withdraw9 src amount of
              Inl e \<Rightarrow> (Some e, bank)
            | Inr src' \<Rightarrow>
              (let bank1 = AList.update from_id src' bank;
                   dst1 = (if to_id = from_id then src' else dst)
               in case deposit9 dst1 amount of
                    Inr dst' \<Rightarrow> (None, AList.update to_id dst' bank1)
                  | Inl e \<Rightarrow>
                      (case deposit9 src' amount of
                         Inr src'' \<Rightarrow> (Some RuntimeError, AList.update from_id src'' bank1)
                       | Inl e2 \<Rightarrow> (Some e2, bank1))))))"

text \<open>The money in the bank: the sum of the values of all balances.\<close>

definition total9 :: "bank9 \<Rightarrow> rat" where
  "total9 bank = sum_list (map (\<lambda>(k, a). val (balance a)) bank)"

section \<open>Lesson 10: Simple Banking System\<close>

record account10 =
  number :: int
  holder :: string
  balance10 :: decimal
  overdraft_limit :: decimal

type_synonym bank10 = "(int \<times> account10) list"

definition deposit10 :: "account10 \<Rightarrow> decimal \<Rightarrow> exn + account10" where
  "deposit10 a amount =
     (if dec_le amount dec_zero then Inl ValueError
      else case dec_add (balance10 a) amount of
             Inl e \<Rightarrow> Inl e
           | Inr b \<Rightarrow> Inr (a\<lparr>balance10 := b\<rparr>))"

definition withdraw10 :: "account10 \<Rightarrow> decimal \<Rightarrow> exn + account10" where
  "withdraw10 a amount =
     (if dec_le amount dec_zero then Inl ValueError
      else case dec_sub (balance10 a) amount of
             Inl e \<Rightarrow> Inl e
           | Inr new_balance \<Rightarrow>
               (case dec_neg (overdraft_limit a) of
                  Inl e \<Rightarrow> Inl e
                | Inr limit \<Rightarrow>
                    if dec_lt new_balance limit then Inl InsufficientFundsError10
                    else Inr (a\<lparr>balance10 := new_balance\<rparr>)))"

definition add_account10 :: "bank10 \<Rightarrow> int \<Rightarrow> string \<Rightarrow> decimal \<Rightarrow> decimal \<Rightarrow> exn + bank10" where
  "add_account10 bank num hold bal od =
     (if map_of bank num \<noteq> None then Inl DuplicateAccountError10
      else Inr (AList.update num
             \<lparr>number = num, holder = hold, balance10 = bal, overdraft_limit = od\<rparr> bank))"

text \<open>\<open>Bank.get\<close>; an \<open>Account\<close> object is always truthy, so \<open>not acc\<close> means \<open>acc is None\<close>.\<close>

definition get10 :: "bank10 \<Rightarrow> int \<Rightarrow> exn + account10" where
  "get10 bank num =
     (case map_of bank num of
        None \<Rightarrow> Inl AccountNotFoundError10
      | Some acc \<Rightarrow> Inr acc)"

definition bank_deposit10 :: "bank10 \<Rightarrow> int \<Rightarrow> decimal \<Rightarrow> exn + bank10" where
  "bank_deposit10 bank num amount =
     (case get10 bank num of
        Inl e \<Rightarrow> Inl e
      | Inr acc \<Rightarrow>
          (case deposit10 acc amount of
             Inl e \<Rightarrow> Inl e
           | Inr acc' \<Rightarrow> Inr (AList.update num acc' bank)))"

definition bank_withdraw10 :: "bank10 \<Rightarrow> int \<Rightarrow> decimal \<Rightarrow> exn + bank10" where
  "bank_withdraw10 bank num amount =
     (case get10 bank num of
        Inl e \<Rightarrow> Inl e
      | Inr acc \<Rightarrow>
          (case withdraw10 acc amount of
             Inl e \<Rightarrow> Inl e
           | Inr acc' \<Rightarrow> Inr (AList.update num acc' bank)))"

text \<open>
  \<open>Bank.transfer\<close> of lesson 10.  The rollback assigns the saved balance to
  \<open>src.balance\<close>; an attribute assignment on a slotted dataclass does not raise, so the
  inner \<open>except\<close> has no branch.
\<close>

definition transfer10 :: "bank10 \<Rightarrow> int \<Rightarrow> int \<Rightarrow> decimal \<Rightarrow> exn option \<times> bank10" where
  "transfer10 bank from_id to_id amount =
     (if dec_le amount dec_zero then (Some ValueError, bank)
      else case get10 bank from_id of
        Inl e \<Rightarrow> (Some e, bank)
      | Inr src \<Rightarrow>
        (case get10 bank to_id of
           Inl e \<Rightarrow> (Some e, bank)
         | Inr dst \<Rightarrow>
           (let original_src_balance = balance10 src
            in case withdraw10 src amount of
              Inl e \<Rightarrow> (Some e, bank)
            | Inr src' \<Rightarrow>
              (let bank1 = AList.update from_id src' bank;
                   dst1 = (if to_id = from_id then src' else dst)
               in case deposit10 dst1 amount of
                    Inr dst' \<Rightarrow> (None, AList.update to_id dst' bank1)
                  | Inl deposit_error \<Rightarrow>
                      (Some RuntimeError,
                       AList.update from_id (src'\<lparr>balance10 := original_src_balance\<rparr>) bank1)))))"

definition total10 :: "bank10 \<Rightarrow> rat" where
  "total10 bank = sum_list (map (\<lambda>(k, a). val (balance10 a)) bank)"

subsection \<open>Banks to run the transfers on\<close>

text \<open>
  The doctests' banks: Alice 100 and Bob 50, transfer of 20 (lesson 9); A 100 and B 0,
  transfer of 40 (lesson 10).
\<close>

definition alice :: account9 where
  "alice = \<lparr>account_id = 1, owner = ''Alice'', balance = Decimal 100 0\<rparr>"

definition bob :: account9 where
  "bob = \<lparr>account_id = 2, owner = ''Bob'', balance = Decimal 50 0\<rparr>"

definition acc_a :: account10 where
  "acc_a = \<lparr>number = 1, holder = ''A'', balance10 = Decimal 100 0, overdraft_limit = Decimal 0 0\<rparr>"

definition acc_b :: account10 where
  "acc_b = \<lparr>number = 2, holder = ''B'', balance10 = Decimal 0 0, overdraft_limit = Decimal 0 0\<rparr>"

definition bank_l9 :: bank9 where
  "bank_l9 = [(1, alice), (2, bob)]"

definition bank_l10 :: bank10 where
  "bank_l10 = [(1, acc_a), (2, acc_b)]"

text \<open>
  A balance of \<open>1E+30\<close> beside an empty account, and the amount \<open>0.01\<close>: the difference
  has 32 digits and is rounded back to \<open>1.000000000000000000000000000E+30\<close>.
\<close>

definition cent :: decimal where
  "cent = Decimal 1 (- 2)"

definition rich9 :: account9 where
  "rich9 = \<lparr>account_id = 1, owner = ''A'', balance = Decimal 1 30\<rparr>"

definition poor9 :: account9 where
  "poor9 = \<lparr>account_id = 2, owner = ''B'', balance = Decimal 0 0\<rparr>"

definition bank_rich9 :: bank9 where
  "bank_rich9 = [(1, rich9), (2, poor9)]"

definition rich10 :: account10 where
  "rich10 = \<lparr>number = 1, holder = ''A'', balance10 = Decimal 1 30, overdraft_limit = Decimal 0 0\<rparr>"

definition poor10 :: account10 where
  "poor10 = \<lparr>number = 2, holder = ''B'', balance10 = Decimal 0 0, overdraft_limit = Decimal 0 0\<rparr>"

definition bank_rich10 :: bank10 where
  "bank_rich10 = [(1, rich10), (2, poor10)]"

text \<open>
  Balances at the top of the context's range: \<open>top\<close> is
  \<open>9.999999999999999999999999999E+999999\<close>, \<open>below_top\<close> the number one unit in the last
  place lower, \<open>half_ulp\<close> is \<open>5E+999971\<close>, half a unit in the last place of both, and \<open>ulp_and_half\<close>
  is \<open>1.5E+999972\<close>, three times that.
\<close>

definition top :: decimal where
  "top = Decimal 9999999999999999999999999999 999972"

definition below_top :: decimal where
  "below_top = Decimal 9999999999999999999999999998 999972"

definition half_ulp :: decimal where
  "half_ulp = Decimal 5 999971"

definition ulp_and_half :: decimal where
  "ulp_and_half = Decimal 15 999971"

definition top9 :: "int \<Rightarrow> decimal \<Rightarrow> account9" where
  "top9 i b = \<lparr>account_id = i, owner = ''T'', balance = b\<rparr>"

definition bank_top9 :: bank9 where
  "bank_top9 = [(1, top9 1 top), (2, top9 2 top)]"

definition bank_small9 :: bank9 where
  "bank_small9 = [(1, top9 1 half_ulp), (2, top9 2 top)]"

definition top10 :: "int \<Rightarrow> decimal \<Rightarrow> account10" where
  "top10 i b = \<lparr>number = i, holder = ''T'', balance10 = b, overdraft_limit = Decimal 0 999972\<rparr>"

definition bank_top10 :: bank10 where
  "bank_top10 = [(1, top10 1 top), (2, top10 2 top)]"

section \<open>Lesson 9: Binary Search Tree\<close>

text \<open>
  \<open>BSTNode\<close> with its four fields; \<open>Nil_node\<close> is Python's \<open>None\<close> where a node is
  optional (\<open>root\<close>, \<open>left\<close>, \<open>right\<close>).  The names \<open>insert\<close>, \<open>search\<close>, \<open>inorder\<close> and
  \<open>count\<close> are taken in HOL, so the methods carry the suffix \<open>_bst\<close> and the field is
  \<open>cnt\<close>.
\<close>

datatype bst_node = Nil_node | BSTNode (key: int) (left: bst_node) (right: bst_node) (cnt: int)

text \<open>\<open>BinarySearchTree\<close>: the root and the policy string.\<close>

record binary_search_tree =
  root :: bst_node
  on_duplicate :: string

definition bst_init :: "string \<Rightarrow> exn + binary_search_tree" where
  "bst_init pol =
     (if pol \<notin> {''ignore'', ''error'', ''count''} then Inl ValueError
      else Inr \<lparr>root = Nil_node, on_duplicate = pol\<rparr>)"

text \<open>
  \<open>insert\<close> walks down from the root and mutates one node at the end of the walk (a
  new child, or the counter of the node found).  The walk is the recursion of
  \<open>insert_node\<close>, which returns the subtree as it is after the call; an empty subtree
  is where the source creates \<open>BSTNode(key)\<close>.  The only \<open>raise\<close> comes before any
  mutation, so \<open>Inl e\<close> means: \<open>e\<close> was raised and the tree is as it was.
\<close>

fun insert_node :: "string \<Rightarrow> int \<Rightarrow> bst_node \<Rightarrow> exn + bst_node" where
  "insert_node pol k Nil_node = Inr (BSTNode k Nil_node Nil_node 1)"
| "insert_node pol k (BSTNode ck l r c) =
     (if k = ck then
        (if pol = ''ignore'' then Inr (BSTNode ck l r c)
         else if pol = ''error'' then Inl ValueError
         else Inr (BSTNode ck l r (c + 1)))
      else if k < ck then
        (case insert_node pol k l of
           Inl e \<Rightarrow> Inl e
         | Inr l' \<Rightarrow> Inr (BSTNode ck l' r c))
      else
        (case insert_node pol k r of
           Inl e \<Rightarrow> Inl e
         | Inr r' \<Rightarrow> Inr (BSTNode ck l r' c)))"

definition insert_bst :: "binary_search_tree \<Rightarrow> int \<Rightarrow> exn + binary_search_tree" where
  "insert_bst t k =
     (case insert_node (on_duplicate t) k (root t) of
        Inl e \<Rightarrow> Inl e
      | Inr n \<Rightarrow> Inr (t\<lparr>root := n\<rparr>))"

fun search_node :: "bst_node \<Rightarrow> int \<Rightarrow> bool" where
  "search_node Nil_node k = False"
| "search_node (BSTNode ck l r c) k =
     (if k = ck then True else search_node (if k < ck then l else r) k)"

definition search_bst :: "binary_search_tree \<Rightarrow> int \<Rightarrow> bool" where
  "search_bst t k = search_node (root t) k"

fun inorder_node :: "bst_node \<Rightarrow> int list" where
  "inorder_node Nil_node = []"
| "inorder_node (BSTNode ck l r c) = inorder_node l @ ck # inorder_node r"

definition inorder_bst :: "binary_search_tree \<Rightarrow> int list" where
  "inorder_bst t = inorder_node (root t)"

fun inorder_with_counts_node :: "bst_node \<Rightarrow> (int \<times> int) list" where
  "inorder_with_counts_node Nil_node = []"
| "inorder_with_counts_node (BSTNode ck l r c) =
     inorder_with_counts_node l @ (ck, c) # inorder_with_counts_node r"

definition inorder_with_counts_bst :: "binary_search_tree \<Rightarrow> (int \<times> int) list" where
  "inorder_with_counts_bst t = inorder_with_counts_node (root t)"

text \<open>
  The search-tree ordering (not in the source): what every tree built by \<open>insert\<close> from
  the empty tree satisfies, see \<open>insert_node_bst_ok\<close>.
\<close>

fun bst_ok :: "bst_node \<Rightarrow> bool" where
  "bst_ok Nil_node = True"
| "bst_ok (BSTNode ck l r c) =
     (bst_ok l \<and> bst_ok r \<and> (\<forall>x \<in> set (inorder_node l). x < ck)
      \<and> (\<forall>x \<in> set (inorder_node r). ck < x))"

text \<open>\<open>bump k\<close> adds one to the count of key \<open>k\<close> in a (key, count) pair.\<close>

definition bump :: "int \<Rightarrow> int \<times> int \<Rightarrow> int \<times> int" where
  "bump k p = (if fst p = k then (fst p, snd p + 1) else p)"


text \<open>The trees of the class's doctest: keys 5, 3, 7, 1, 4, 6, 8, and 2, 2, 2, 1 with counts.\<close>

definition doctest_root :: bst_node where
  "doctest_root =
     BSTNode 5
       (BSTNode 3 (BSTNode 1 Nil_node Nil_node 1) (BSTNode 4 Nil_node Nil_node 1) 1)
       (BSTNode 7 (BSTNode 6 Nil_node Nil_node 1) (BSTNode 8 Nil_node Nil_node 1) 1) 1"

definition doctest_root2 :: bst_node where
  "doctest_root2 = BSTNode 2 (BSTNode 1 Nil_node Nil_node 1) Nil_node 3"

section \<open>Lesson 12: primes\<close>

text \<open>
  \<open>math.isqrt\<close>: the floor of the square root of a non-negative integer.  \<open>is_prime\<close>
  calls it only under \<open>n > 3\<close>, where it does not raise; on a negative argument
  (where Python raises) this function is 0 and is not used.
\<close>

fun isqrt_nat :: "nat \<Rightarrow> nat" where
  "isqrt_nat 0 = 0"
| "isqrt_nat (Suc n) =
     (let r = isqrt_nat n in if (r + 1) * (r + 1) \<le> Suc n then r + 1 else r)"

definition isqrt :: "int \<Rightarrow> int" where
  "isqrt n = int (isqrt_nat (nat n))"

text \<open>
  The \<open>while f <= limit\<close> loop of \<open>is_prime\<close>, with the loop variable \<open>f\<close> as argument.
  Python's \<open>%\<close> with a positive divisor is \<open>mod\<close> on \<open>int\<close>.
\<close>

function is_prime_loop :: "int \<Rightarrow> int \<Rightarrow> int \<Rightarrow> bool" where
  "is_prime_loop n limit f =
     (if f \<le> limit then
        (if n mod f = 0 \<or> n mod (f + 2) = 0 then False
         else is_prime_loop n limit (f + 6))
      else True)"
  by pat_completeness auto
termination
  by (relation "measure (\<lambda>(n, limit, f). nat (limit + 1 - f))") auto

definition is_prime :: "int \<Rightarrow> bool" where
  "is_prime n =
     (if n \<le> 1 then False
      else if n \<le> 3 then True
      else if n mod 2 = 0 \<or> n mod 3 = 0 then False
      else is_prime_loop n (isqrt n) 5)"

text \<open>
  What "prime" means in the claim: greater than 1 and no divisor strictly between 1
  and \<open>n\<close>.
\<close>

definition prime_spec :: "int \<Rightarrow> bool" where
  "prime_spec n \<longleftrightarrow> 1 < n \<and> (\<forall>d. 1 < d \<and> d < n \<longrightarrow> \<not> d dvd n)"

text \<open>
  \<open>split_range\<close>: the \<open>for i in range(min(parts, n))\<close> loop is \<open>split_chunks\<close> over the
  list of indices, with \<open>start\<close> as argument; \<open>divmod\<close> with a positive divisor is
  \<open>div\<close> and \<open>mod\<close>.
\<close>

fun split_chunks :: "int \<Rightarrow> int \<Rightarrow> int \<Rightarrow> int list \<Rightarrow> (int \<times> int) list" where
  "split_chunks b r start [] = []"
| "split_chunks b r start (i # is) =
     (let size = b + (if i < r then 1 else 0);
          end = start + size - 1
      in (start, end) # split_chunks b r (end + 1) is)"

definition split_range :: "int \<Rightarrow> int \<Rightarrow> int \<Rightarrow> exn + (int \<times> int) list" where
  "split_range lo hi parts =
     (if parts \<le> 0 then Inl ValueError
      else let (lo, hi) = (if hi < lo then (hi, lo) else (lo, hi))
           in if lo > hi then Inr []
              else let n = hi - lo + 1;
                       b = n div (min parts n);
                       r = n mod (min parts n)
                   in Inr (split_chunks b r lo [0..min parts n - 1]))"

record prime_job =
  job_start :: int
  job_end :: int

text \<open>\<open>_prime_worker\<close>: \<open>range(job.start, job.end + 1)\<close> is the inclusive interval.\<close>

definition prime_worker :: "prime_job \<Rightarrow> int list" where
  "prime_worker job = filter is_prime [job_start job..job_end job]"

text \<open>
  \<open>threaded_primes\<close>.  The futures complete in an order the scheduler chooses:
  \<open>order\<close> lists the indices of the jobs in the order \<open>as_completed\<close> yields them (a
  permutation of the submitted jobs), and the results are appended in that order
  before \<open>primes.sort()\<close>.
\<close>

definition threaded_primes :: "nat list \<Rightarrow> int \<Rightarrow> int \<Rightarrow> int \<Rightarrow> exn + int list" where
  "threaded_primes order lo hi threads =
     (if threads \<le> 0 then Inl ValueError
      else case split_range lo hi threads of
             Inl e \<Rightarrow> Inl e
           | Inr chunks \<Rightarrow>
               (let ranges = map (\<lambda>(a, b). \<lparr>job_start = a, job_end = b\<rparr>) chunks
                in Inr (sort (concat (map (\<lambda>i. prime_worker (ranges ! i)) order)))))"

text \<open>\<open>span c\<close>: the integers of the inclusive chunk \<open>c = (start, end)\<close>.\<close>

definition span :: "int \<times> int \<Rightarrow> int list" where
  "span c = [fst c..snd c]"

section \<open>Lesson 12: threaded word count\<close>

text \<open>
  A \<open>Counter\<close> maps words to positive counts and compares as a dict, whatever the
  insertion order: a multiset of words.  \<open>Counter.update\<close> with a list of words adds
  one per occurrence; with another \<open>Counter\<close> it adds the counts.
\<close>

type_synonym 'w counter = "'w multiset"

text \<open>
  \<open>tokenize_to_words\<close> is \<open>re.findall(r"\w+")\<close> followed by \<open>str.casefold\<close>, both from
  Python's library and Unicode-aware.  The worker and the counting functions below
  take the tokenizer as the parameter \<open>tok\<close>, so what is proved holds for the
  library's tokenizer too.  \<open>tokenize_ascii\<close> is that function on ASCII text (word
  characters are letters, digits and the underscore; case folding is lower-casing),
  used to run the doctest.
\<close>

definition is_word_char :: "char \<Rightarrow> bool" where
  "is_word_char c =
     (let n = (of_char c :: nat)
      in (48 \<le> n \<and> n \<le> 57) \<or> (65 \<le> n \<and> n \<le> 90) \<or> n = 95 \<or> (97 \<le> n \<and> n \<le> 122))"

definition casefold_char :: "char \<Rightarrow> char" where
  "casefold_char c =
     (let n = (of_char c :: nat) in if 65 \<le> n \<and> n \<le> 90 then char_of (n + 32) else c)"

fun findall_words :: "string \<Rightarrow> string \<Rightarrow> string list" where
  "findall_words cur [] = (if cur = [] then [] else [cur])"
| "findall_words cur (c # cs) =
     (if is_word_char c then findall_words (cur @ [c]) cs
      else if cur = [] then findall_words [] cs
      else cur # findall_words [] cs)"

definition tokenize_ascii :: "string \<Rightarrow> string list" where
  "tokenize_ascii text = map (map casefold_char) (findall_words [] text)"

text \<open>
  \<open>_wordcount_worker\<close>, as a function of the items its \<open>q.get()\<close> calls return, in
  order (\<open>None\<close> is the sentinel).  It returns its local counter (stored in
  \<open>results[idx]\<close>) at the first sentinel; if the items run out, \<open>q.get()\<close> blocks
  for ever and the worker does not return: the result is then \<open>None\<close>.
\<close>

fun wordcount_worker :: "('l \<Rightarrow> 'w list) \<Rightarrow> 'l option list \<Rightarrow> 'w counter \<Rightarrow> 'w counter option" where
  "wordcount_worker tok [] local = None"
| "wordcount_worker tok (None # rest) local = Some local"
| "wordcount_worker tok (Some line # rest) local =
     wordcount_worker tok rest (local + mset (tok line))"

text \<open>
  The queue is first-in first-out, the producer puts every line and then one sentinel
  per worker, and a worker stops at its first sentinel.  So each worker takes some of
  the lines and then exactly one sentinel.  \<open>sched\<close> names, for each line in file
  order, the index of the worker that takes it; \<open>worker_items\<close> is what worker \<open>i\<close>
  then reads from the queue.
\<close>

definition worker_items :: "'l list \<Rightarrow> nat list \<Rightarrow> nat \<Rightarrow> 'l option list" where
  "worker_items lines sched i =
     map (\<lambda>(l, w). Some l) (filter (\<lambda>(l, w). w = i) (zip lines sched)) @ [None]"

text \<open>
  The merge loop \<open>for c in results: total.update(c)\<close>, reached once every worker has
  been joined (\<open>None\<close> if one of them never returns).
\<close>

fun merge_counters :: "'w counter option list \<Rightarrow> 'w counter \<Rightarrow> 'w counter option" where
  "merge_counters [] acc_total = Some acc_total"
| "merge_counters (None # cs) acc_total = None"
| "merge_counters (Some c # cs) acc_total = merge_counters cs (acc_total + c)"

text \<open>
  \<open>threaded_word_count\<close> on the lines of the file, for \<open>cfg.threads\<close> workers and a
  schedule.  \<open>Inr None\<close>: the call does not return.
\<close>

definition threaded_word_count ::
  "('l \<Rightarrow> 'w list) \<Rightarrow> int \<Rightarrow> 'l list \<Rightarrow> nat list \<Rightarrow> exn + 'w counter option" where
  "threaded_word_count tok threads lines sched =
     (if threads \<le> 0 then Inl ValueError
      else let results = map (\<lambda>i. wordcount_worker tok (worker_items lines sched i) {#})
                           [0..<nat threads]
           in Inr (merge_counters results {#}))"

text \<open>
  The sequential count the claim compares with: tokenize the lines in order and add
  up the counts in one table.
\<close>

definition sequential_count :: "('l \<Rightarrow> 'w list) \<Rightarrow> 'l list \<Rightarrow> 'w counter" where
  "sequential_count tok lines = fold (\<lambda>line acc_total. acc_total + mset (tok line)) lines {#}"

text \<open>\<open>assigned tok lines sched i\<close>: the words of the lines that worker \<open>i\<close> takes.\<close>

definition assigned :: "('l \<Rightarrow> 'w list) \<Rightarrow> 'l list \<Rightarrow> nat list \<Rightarrow> nat \<Rightarrow> 'w counter" where
  "assigned tok lines sched i =
     (\<Sum>p\<leftarrow>filter (\<lambda>(l, w). w = i) (zip lines sched). mset (tok (fst p)))"

text \<open>The two lines of the doctest's file.\<close>

definition demo_line1 :: string where
  "demo_line1 = ''One two TWO'' @ [CHR 0x0A]"

definition demo_line2 :: string where
  "demo_line2 = ''Three two!''"

definition demo_lines :: "string list" where
  "demo_lines = [demo_line1, demo_line2]"

section \<open>Lesson 15: the roster database\<close>

text \<open>
  \<open>RosterMember\<close> (the field \<open>id\<close> is \<open>rid\<close> here, \<open>id\<close> being HOL's identity).
  \<open>__post_init__\<close> validates the fields; \<open>not s.strip()\<close> holds when every character
  of \<open>s\<close> is whitespace (for ASCII text: codes 9 to 13 and 28 to 32).
\<close>

record roster_member =
  name :: string
  species :: string
  age :: int
  rid :: "int option"

definition is_space :: "char \<Rightarrow> bool" where
  "is_space c =
     (let n = (of_char c :: nat) in (9 \<le> n \<and> n \<le> 13) \<or> (28 \<le> n \<and> n \<le> 32))"

definition post_init :: "roster_member \<Rightarrow> exn + roster_member" where
  "post_init m =
     (if list_all is_space (name m) then Inl ValueError
      else if length (name m) > 100 then Inl ValueError
      else if list_all is_space (species m) then Inl ValueError
      else if length (species m) > 50 then Inl ValueError
      else if \<not> (0 \<le> age m \<and> age m \<le> 1000) then Inl ValueError
      else Inr m)"

definition RosterMember :: "string \<Rightarrow> string \<Rightarrow> int \<Rightarrow> exn + roster_member" where
  "RosterMember n s a = post_init \<lparr>name = n, species = s, age = a, rid = None\<rparr>"














section \<open>Lesson 13: age and birthdays\<close>






















section \<open>Decimal: values of exact results and comparisons\<close>

lemma shift_powi:
  assumes "e \<le> x"
  shows "(10::rat) ^ nat (x - e) * 10 powi e = 10 powi x"
proof -
  from assms have "(10::rat) ^ nat (x - e) = 10 powi (x - e)"
    by (simp add: power_int_def)
  then show ?thesis
    by (simp add: power_int_add [symmetric])
qed

lemma val_exact_add: "val (exact_add a b) = val a + val b"
proof -
  define e where "e = min (expo a) (expo b)"
  have pa: "(10::rat) ^ nat (expo a - e) * 10 powi e = 10 powi expo a"
    by (rule shift_powi) (simp add: e_def)
  have pb: "(10::rat) ^ nat (expo b - e) * 10 powi e = 10 powi expo b"
    by (rule shift_powi) (simp add: e_def)
  have "val (exact_add a b)
      = of_int (coeff a) * ((10::rat) ^ nat (expo a - e) * 10 powi e)
        + of_int (coeff b) * ((10::rat) ^ nat (expo b - e) * 10 powi e)"
    unfolding exact_add_def val_def Let_def e_def [symmetric]
    by (simp add: algebra_simps)
  then show ?thesis
    by (simp only: pa pb val_def)
qed

lemma val_exact_sub: "val (exact_sub a b) = val a - val b"
proof -
  define e where "e = min (expo a) (expo b)"
  have pa: "(10::rat) ^ nat (expo a - e) * 10 powi e = 10 powi expo a"
    by (rule shift_powi) (simp add: e_def)
  have pb: "(10::rat) ^ nat (expo b - e) * 10 powi e = 10 powi expo b"
    by (rule shift_powi) (simp add: e_def)
  have "val (exact_sub a b)
      = of_int (coeff a) * ((10::rat) ^ nat (expo a - e) * 10 powi e)
        - of_int (coeff b) * ((10::rat) ^ nat (expo b - e) * 10 powi e)"
    unfolding exact_sub_def val_def Let_def e_def [symmetric]
    by (simp add: algebra_simps)
  then show ?thesis
    by (simp only: pa pb val_def)
qed

lemma val_exact_neg: "val (exact_neg a) = - val a"
  by (simp add: val_def exact_neg_def)

lemma val_dec_zero: "val dec_zero = 0"
  by (simp add: val_def dec_zero_def)

lemma val_less_0: "val d < 0 \<longleftrightarrow> coeff d < 0"
proof -
  have pos: "(0::rat) < 10 powi expo d"
    by simp
  have "val d < 0 \<longleftrightarrow> (of_int (coeff d) :: rat) * 10 powi expo d < 0 * 10 powi expo d"
    by (simp add: val_def)
  also have "\<dots> \<longleftrightarrow> (of_int (coeff d) :: rat) < 0"
    by (rule mult_less_cancel_right_pos [OF pos])
  finally show ?thesis
    by simp
qed

lemma val_le_0: "val d \<le> 0 \<longleftrightarrow> coeff d \<le> 0"
proof -
  have pos: "(0::rat) < 10 powi expo d"
    by simp
  have "val d \<le> 0 \<longleftrightarrow> (of_int (coeff d) :: rat) * 10 powi expo d \<le> 0 * 10 powi expo d"
    by (simp add: val_def)
  also have "\<dots> \<longleftrightarrow> (of_int (coeff d) :: rat) \<le> 0"
    by (rule mult_le_cancel_right_pos [OF pos])
  finally show ?thesis
    by simp
qed

lemma val_pos_iff: "0 < val d \<longleftrightarrow> 0 < coeff d"
  using val_le_0 [of d] by (simp add: not_le [symmetric])

lemma val_zero_coeff: "val (Decimal 0 e) = 0"
  by (simp add: val_def)

text \<open>The comparisons of \<open>Decimal\<close> compare the values.\<close>

lemma dec_lt_iff: "dec_lt a b \<longleftrightarrow> val a < val b"
  using val_less_0 [of "exact_sub a b"] by (simp add: dec_lt_def val_exact_sub)

lemma dec_le_iff: "dec_le a b \<longleftrightarrow> val a \<le> val b"
  using val_le_0 [of "exact_sub a b"] by (simp add: dec_le_def val_exact_sub)

lemma dec_le_zero: "dec_le a dec_zero \<longleftrightarrow> coeff a \<le> 0"
  using val_le_0 [of a] by (simp add: dec_le_iff val_dec_zero)

lemma dec_le_zero_val: "dec_le a dec_zero \<longleftrightarrow> val a \<le> 0"
  by (simp add: dec_le_iff val_dec_zero)

text \<open>What an exact operation returns.\<close>

lemma exact_in_contextI:
  assumes "ctx_fix d = Inr r" and "val r = val d"
  shows "exact_in_context d"
  using assms unfolding exact_in_context_def by blast

lemma exact_sub_result:
  assumes "exact_in_context (exact_sub a b)"
  shows "\<exists>r. dec_sub a b = Inr r \<and> val r = val a - val b"
  using assms unfolding exact_in_context_def dec_sub_def by (simp add: val_exact_sub)

lemma exact_add_result:
  assumes "exact_in_context (exact_add a b)"
  shows "\<exists>r. dec_add a b = Inr r \<and> val r = val a + val b"
  using assms unfolding exact_in_context_def dec_add_def by (simp add: val_exact_add)

lemma exact_neg_result:
  assumes "exact_in_context (exact_neg a)"
  shows "\<exists>r. dec_neg a = Inr r \<and> val r = - val a"
  using assms unfolding exact_in_context_def dec_neg_def by (simp add: val_exact_neg)

lemma dec_sub_exact_iff:
  assumes "dec_sub a b = Inr r"
  shows "exact_in_context (exact_sub a b) \<longleftrightarrow> val r = val a - val b"
  using assms unfolding exact_in_context_def dec_sub_def by (simp add: val_exact_sub)

lemma dec_add_exact_iff:
  assumes "dec_add a b = Inr r"
  shows "exact_in_context (exact_add a b) \<longleftrightarrow> val r = val a + val b"
  using assms unfolding exact_in_context_def dec_add_def by (simp add: val_exact_add)

section \<open>Bank: helper lemmas\<close>

lemma total9_update:
  "map_of bank k = Some a \<Longrightarrow>
   total9 (AList.update k a' bank) = total9 bank - val (balance a) + val (balance a')"
  unfolding total9_def by (induction bank) (auto split: if_splits)

lemma total10_update:
  "map_of bank k = Some a \<Longrightarrow>
   total10 (AList.update k a' bank) = total10 bank - val (balance10 a) + val (balance10 a')"
  unfolding total10_def by (induction bank) (auto split: if_splits)

text \<open>The steps of the transfers on the example banks.\<close>

lemma cent_positive: "\<not> dec_le cent dec_zero"
  by (simp add: dec_le_zero cent_def)

lemma half_ulp_positive: "\<not> dec_le half_ulp dec_zero"
  by (simp add: dec_le_zero half_ulp_def)

lemma rich_sub_cent: "dec_sub (Decimal 1 30) cent = Inr (Decimal 1000000000000000000000000000 3)"
  by code_simp

lemma zero_add_cent: "dec_add (Decimal 0 0) cent = Inr cent"
  by code_simp

lemma rich_not_lt_cent: "\<not> dec_lt (Decimal 1 30) cent"
  by code_simp

lemma neg_zero: "dec_neg (Decimal 0 0) = Inr (Decimal 0 0)"
  by code_simp

lemma rounded_not_lt_zero: "\<not> dec_lt (Decimal 1000000000000000000000000000 3) (Decimal 0 0)"
  by code_simp

lemma top_sub_half_ulp: "dec_sub top half_ulp = Inr below_top"
  by code_simp

lemma top_not_lt_half_ulp: "\<not> dec_lt top half_ulp"
  by code_simp

lemma top_add_half_ulp: "dec_add top half_ulp = Inl DecimalOverflow"
  by code_simp

lemma below_top_add_half_ulp: "dec_add below_top half_ulp = Inr below_top"
  by code_simp

lemma half_ulp_sub_half_ulp: "dec_sub half_ulp half_ulp = Inr (Decimal 0 999971)"
  by code_simp

lemma half_ulp_not_lt_half_ulp: "\<not> dec_lt half_ulp half_ulp"
  by code_simp

lemma zero_add_half_ulp: "dec_add (Decimal 0 999971) half_ulp = Inr half_ulp"
  by code_simp

lemma neg_zero_top: "dec_neg (Decimal 0 999972) = Inr (Decimal 0 999972)"
  by code_simp

lemma below_top_not_lt_zero: "\<not> dec_lt below_top (Decimal 0 999972)"
  by code_simp

lemma top_sub_ulp_and_half: "dec_sub top ulp_and_half = Inr below_top"
  by code_simp

lemma top_not_lt_ulp_and_half: "\<not> dec_lt top ulp_and_half"
  by code_simp

lemma top_add_ulp_and_half: "dec_add top ulp_and_half = Inl DecimalOverflow"
  by code_simp

lemma below_top_add_ulp_and_half: "dec_add below_top ulp_and_half = Inl DecimalOverflow"
  by code_simp

lemma half_ulp_le_top: "dec_le half_ulp top"
  by code_simp

lemma ulp_and_half_le_top: "dec_le ulp_and_half top"
  by code_simp

lemma below_top_lt_top: "dec_lt below_top top"
  by code_simp

lemma alice_sub_20: "dec_sub (Decimal 100 0) (Decimal 20 0) = Inr (Decimal 80 0)"
  by code_simp

lemma bob_add_20: "dec_add (Decimal 50 0) (Decimal 20 0) = Inr (Decimal 70 0)"
  by code_simp

lemma a_sub_40: "dec_sub (Decimal 100 0) (Decimal 40 0) = Inr (Decimal 60 0)"
  by code_simp

lemma b_add_40: "dec_add (Decimal 0 0) (Decimal 40 0) = Inr (Decimal 40 0)"
  by code_simp

section \<open>Bank: the steps of a transfer\<close>

lemma withdraw9_exact:
  assumes "0 < val amount" and "val amount \<le> val (balance a)"
    and "exact_in_context (exact_sub (balance a) amount)"
  shows "\<exists>r. withdraw9 a amount = Inr (a\<lparr>balance := r\<rparr>)
           \<and> val r = val (balance a) - val amount"
proof -
  from exact_sub_result [OF assms(3)] obtain r
    where r: "dec_sub (balance a) amount = Inr r" "val r = val (balance a) - val amount"
    by blast
  from assms(1,2) have "withdraw9 a amount = Inr (a\<lparr>balance := r\<rparr>)"
    by (simp add: withdraw9_def dec_le_zero_val dec_lt_iff r(1))
  with r(2) show ?thesis
    by blast
qed

lemma deposit9_exact:
  assumes "0 < val amount" and "exact_in_context (exact_add (balance b) amount)"
  shows "\<exists>r. deposit9 b amount = Inr (b\<lparr>balance := r\<rparr>)
           \<and> val r = val (balance b) + val amount"
proof -
  from exact_add_result [OF assms(2)] obtain r
    where r: "dec_add (balance b) amount = Inr r" "val r = val (balance b) + val amount"
    by blast
  from assms(1) have "deposit9 b amount = Inr (b\<lparr>balance := r\<rparr>)"
    by (simp add: deposit9_def dec_le_zero_val r(1))
  with r(2) show ?thesis
    by blast
qed

lemma withdraw10_exact:
  assumes "0 < val amount"
    and "- val (overdraft_limit a) \<le> val (balance10 a) - val amount"
    and "exact_in_context (exact_sub (balance10 a) amount)"
    and "exact_in_context (exact_neg (overdraft_limit a))"
  shows "\<exists>r. withdraw10 a amount = Inr (a\<lparr>balance10 := r\<rparr>)
           \<and> val r = val (balance10 a) - val amount"
proof -
  from exact_sub_result [OF assms(3)] obtain r
    where r: "dec_sub (balance10 a) amount = Inr r" "val r = val (balance10 a) - val amount"
    by blast
  from exact_neg_result [OF assms(4)] obtain l
    where l: "dec_neg (overdraft_limit a) = Inr l" "val l = - val (overdraft_limit a)"
    by blast
  from assms(2) r(2) l(2) have "\<not> dec_lt r l"
    by (simp add: dec_lt_iff)
  with assms(1) have "withdraw10 a amount = Inr (a\<lparr>balance10 := r\<rparr>)"
    by (simp add: withdraw10_def dec_le_zero_val r(1) l(1))
  with r(2) show ?thesis
    by blast
qed

lemma deposit10_exact:
  assumes "0 < val amount" and "exact_in_context (exact_add (balance10 b) amount)"
  shows "\<exists>r. deposit10 b amount = Inr (b\<lparr>balance10 := r\<rparr>)
           \<and> val r = val (balance10 b) + val amount"
proof -
  from exact_add_result [OF assms(2)] obtain r
    where r: "dec_add (balance10 b) amount = Inr r" "val r = val (balance10 b) + val amount"
    by blast
  from assms(1) have "deposit10 b amount = Inr (b\<lparr>balance10 := r\<rparr>)"
    by (simp add: deposit10_def dec_le_zero_val r(1))
  with r(2) show ?thesis
    by blast
qed

text \<open>A method that returns has changed nothing but the balance.\<close>

lemma withdraw9_Inr:
  assumes "withdraw9 a amount = Inr a'"
  shows "\<not> dec_le amount dec_zero \<and> a' = a\<lparr>balance := balance a'\<rparr>"
  using assms by (auto simp: withdraw9_def split: if_splits sum.splits)

lemma deposit9_Inr:
  assumes "deposit9 a amount = Inr a'"
  shows "\<not> dec_le amount dec_zero \<and> a' = a\<lparr>balance := balance a'\<rparr>"
  using assms by (auto simp: deposit9_def split: if_splits sum.splits)

lemma withdraw10_Inr:
  assumes "withdraw10 a amount = Inr a'"
  shows "\<not> dec_le amount dec_zero \<and> a' = a\<lparr>balance10 := balance10 a'\<rparr>"
  using assms by (auto simp: withdraw10_def split: if_splits sum.splits)

lemma deposit10_Inr:
  assumes "deposit10 a amount = Inr a'"
  shows "\<not> dec_le amount dec_zero \<and> a' = a\<lparr>balance10 := balance10 a'\<rparr>"
  using assms by (auto simp: deposit10_def split: if_splits sum.splits)

text \<open>The three ways out of a transfer whose accounts exist and whose withdrawal returned.\<close>

lemma transfer9_returns:
  assumes "map_of bank from_id = Some a" and "map_of bank to_id = Some b"
    and "withdraw9 a amount = Inr a'"
    and "deposit9 (if to_id = from_id then a' else b) amount = Inr b'"
  shows "transfer9 bank from_id to_id amount
       = (None, AList.update to_id b' (AList.update from_id a' bank))"
  using assms withdraw9_Inr [OF assms(3)]
  by (simp add: transfer9_def get_account9_def Let_def)

lemma transfer9_rollback:
  assumes "map_of bank from_id = Some a" and "map_of bank to_id = Some b"
    and "withdraw9 a amount = Inr a'"
    and "deposit9 (if to_id = from_id then a' else b) amount = Inl e"
    and "deposit9 a' amount = Inr a''"
  shows "transfer9 bank from_id to_id amount
       = (Some RuntimeError, AList.update from_id a'' bank)"
  using assms withdraw9_Inr [OF assms(3)]
  by (simp add: transfer9_def get_account9_def Let_def)

lemma transfer9_rollback_raises:
  assumes "map_of bank from_id = Some a" and "map_of bank to_id = Some b"
    and "withdraw9 a amount = Inr a'"
    and "deposit9 (if to_id = from_id then a' else b) amount = Inl e"
    and "deposit9 a' amount = Inl e2"
  shows "transfer9 bank from_id to_id amount = (Some e2, AList.update from_id a' bank)"
  using assms withdraw9_Inr [OF assms(3)]
  by (simp add: transfer9_def get_account9_def Let_def)

lemma transfer10_returns:
  assumes "map_of bank from_id = Some a" and "map_of bank to_id = Some b"
    and "withdraw10 a amount = Inr a'"
    and "deposit10 (if to_id = from_id then a' else b) amount = Inr b'"
  shows "transfer10 bank from_id to_id amount
       = (None, AList.update to_id b' (AList.update from_id a' bank))"
  using assms withdraw10_Inr [OF assms(3)]
  by (simp add: transfer10_def get10_def Let_def)

lemma transfer10_rollback:
  assumes "map_of bank from_id = Some a" and "map_of bank to_id = Some b"
    and "withdraw10 a amount = Inr a'"
    and "deposit10 (if to_id = from_id then a' else b) amount = Inl e"
  shows "transfer10 bank from_id to_id amount = (Some RuntimeError, bank)"
proof -
  from withdraw10_Inr [OF assms(3)]
  have pos: "\<not> dec_le amount dec_zero" and upd: "a' = a\<lparr>balance10 := balance10 a'\<rparr>"
    by simp_all
  have restored: "a'\<lparr>balance10 := balance10 a\<rparr> = a"
    by (subst upd) simp
  have "transfer10 bank from_id to_id amount
      = (Some RuntimeError, AList.update from_id a (AList.update from_id a' bank))"
    using assms pos restored by (simp add: transfer10_def get10_def Let_def)
  also have "AList.update from_id a (AList.update from_id a' bank) = bank"
    using assms(1) by (simp add: AList.update_triv)
  finally show ?thesis .
qed

lemma transfer10_raises_unchanged:
  "fst (transfer10 bank from_id to_id amount) \<noteq> None \<Longrightarrow>
   snd (transfer10 bank from_id to_id amount) = bank"
proof (cases "dec_le amount dec_zero")
  case True
  then show ?thesis
    by (simp add: transfer10_def)
next
  case pos: False
  assume raised: "fst (transfer10 bank from_id to_id amount) \<noteq> None"
  show ?thesis
  proof (cases "map_of bank from_id")
    case None
    with pos show ?thesis
      by (simp add: transfer10_def get10_def)
  next
    case (Some a)
    note a = this
    show ?thesis
    proof (cases "map_of bank to_id")
      case None
      with pos a show ?thesis
        by (simp add: transfer10_def get10_def)
    next
      case (Some b)
      note b = this
      show ?thesis
      proof (cases "withdraw10 a amount")
        case (Inl e)
        with pos a b show ?thesis
          by (simp add: transfer10_def get10_def Let_def)
      next
        case (Inr a')
        note w = this
        show ?thesis
        proof (cases "deposit10 (if to_id = from_id then a' else b) amount")
          case (Inl e)
          from transfer10_rollback [OF a b w Inl] show ?thesis
            by simp
        next
          case (Inr b')
          from transfer10_returns [OF a b w Inr] raised show ?thesis
            by simp
        qed
      qed
    qed
  qed
qed

section \<open>Bank: the transfers on the example banks\<close>

text \<open>The doctests' transfers: every step is exact.\<close>

lemma doctest9_exact:
  "exact_in_context (exact_sub (balance alice) (Decimal 20 0))"
  "exact_in_context (exact_add (balance bob) (Decimal 20 0))"
  by (simp_all add: alice_def bob_def dec_sub_exact_iff [OF alice_sub_20]
      dec_add_exact_iff [OF bob_add_20] val_def)

lemma doctest10_exact:
  "exact_in_context (exact_neg (overdraft_limit acc_a))"
  "exact_in_context (exact_sub (balance10 acc_a) (Decimal 40 0))"
  "exact_in_context (exact_add (balance10 acc_b) (Decimal 40 0))"
proof -
  show "exact_in_context (exact_neg (overdraft_limit acc_a))"
    using neg_zero
    by (simp add: acc_a_def exact_in_context_def dec_neg_def exact_neg_def val_def)
  show "exact_in_context (exact_sub (balance10 acc_a) (Decimal 40 0))"
    by (simp add: acc_a_def dec_sub_exact_iff [OF a_sub_40] val_def)
  show "exact_in_context (exact_add (balance10 acc_b) (Decimal 40 0))"
    by (simp add: acc_b_def dec_add_exact_iff [OF b_add_40] val_def)
qed

lemma doctest9_withdraw:
  "withdraw9 alice (Decimal 20 0) = Inr (alice\<lparr>balance := Decimal 80 0\<rparr>)"
  by (simp add: withdraw9_def alice_def dec_le_zero dec_lt_iff val_def alice_sub_20)

lemma doctest10_withdraw:
  "withdraw10 acc_a (Decimal 40 0) = Inr (acc_a\<lparr>balance10 := Decimal 60 0\<rparr>)"
  by (simp add: withdraw10_def acc_a_def dec_le_zero dec_lt_iff val_def a_sub_40 neg_zero)

text \<open>\<open>0.01\<close> from \<open>1E+30\<close>: the source balance keeps its value.\<close>

lemma rich9_maps: "map_of bank_rich9 1 = Some rich9" "map_of bank_rich9 2 = Some poor9"
  by (simp_all add: bank_rich9_def)

lemma rich10_maps: "map_of bank_rich10 1 = Some rich10" "map_of bank_rich10 2 = Some poor10"
  by (simp_all add: bank_rich10_def)

lemma withdraw9_rich:
  "withdraw9 rich9 cent = Inr (rich9\<lparr>balance := Decimal 1000000000000000000000000000 3\<rparr>)"
  by (simp add: withdraw9_def rich9_def cent_positive rich_not_lt_cent rich_sub_cent)

lemma deposit9_poor: "deposit9 poor9 cent = Inr (poor9\<lparr>balance := cent\<rparr>)"
  by (simp add: deposit9_def poor9_def cent_positive zero_add_cent)

lemma transfer9_rich:
  "transfer9 bank_rich9 1 2 cent
     = (None, [(1, rich9\<lparr>balance := Decimal 1000000000000000000000000000 3\<rparr>),
               (2, poor9\<lparr>balance := cent\<rparr>)])"
proof -
  have d: "deposit9 (if (2::int) = 1
      then rich9\<lparr>balance := Decimal 1000000000000000000000000000 3\<rparr> else poor9) cent
      = Inr (poor9\<lparr>balance := cent\<rparr>)"
    using deposit9_poor by simp
  from transfer9_returns [OF rich9_maps withdraw9_rich d] show ?thesis
    by (simp add: bank_rich9_def)
qed

lemma withdraw10_rich:
  "withdraw10 rich10 cent
     = Inr (rich10\<lparr>balance10 := Decimal 1000000000000000000000000000 3\<rparr>)"
  by (simp add: withdraw10_def rich10_def cent_positive rich_sub_cent neg_zero
      rounded_not_lt_zero)

lemma deposit10_poor: "deposit10 poor10 cent = Inr (poor10\<lparr>balance10 := cent\<rparr>)"
  by (simp add: deposit10_def poor10_def cent_positive zero_add_cent)

lemma transfer10_rich:
  "transfer10 bank_rich10 1 2 cent
     = (None, [(1, rich10\<lparr>balance10 := Decimal 1000000000000000000000000000 3\<rparr>),
               (2, poor10\<lparr>balance10 := cent\<rparr>)])"
proof -
  have d: "deposit10 (if (2::int) = 1
      then rich10\<lparr>balance10 := Decimal 1000000000000000000000000000 3\<rparr> else poor10) cent
      = Inr (poor10\<lparr>balance10 := cent\<rparr>)"
    using deposit10_poor by simp
  from transfer10_returns [OF rich10_maps withdraw10_rich d] show ?thesis
    by (simp add: bank_rich10_def)
qed

text \<open>At the top of the range the deposit overflows.\<close>

lemma ulp_and_half_positive: "\<not> dec_le ulp_and_half dec_zero"
  by (simp add: dec_le_zero ulp_and_half_def)

lemma top9_maps: "map_of bank_top9 1 = Some (top9 1 top)" "map_of bank_top9 2 = Some (top9 2 top)"
  by (simp_all add: bank_top9_def)

lemma small9_maps:
  "map_of bank_small9 1 = Some (top9 1 half_ulp)" "map_of bank_small9 2 = Some (top9 2 top)"
  by (simp_all add: bank_small9_def)

lemma top10_maps:
  "map_of bank_top10 1 = Some (top10 1 top)" "map_of bank_top10 2 = Some (top10 2 top)"
  by (simp_all add: bank_top10_def)

lemma withdraw9_top: "withdraw9 (top9 1 top) half_ulp = Inr (top9 1 below_top)"
  by (simp add: withdraw9_def top9_def half_ulp_positive top_not_lt_half_ulp top_sub_half_ulp)

lemma deposit9_top: "deposit9 (top9 2 top) half_ulp = Inl DecimalOverflow"
  by (simp add: deposit9_def top9_def half_ulp_positive top_add_half_ulp)

lemma deposit9_below_top: "deposit9 (top9 1 below_top) half_ulp = Inr (top9 1 below_top)"
  by (simp add: deposit9_def top9_def half_ulp_positive below_top_add_half_ulp)

lemma transfer9_top:
  "transfer9 bank_top9 1 2 half_ulp
     = (Some RuntimeError, [(1, top9 1 below_top), (2, top9 2 top)])"
proof -
  have d: "deposit9 (if (2::int) = 1 then top9 1 below_top else top9 2 top) half_ulp
      = Inl DecimalOverflow"
    using deposit9_top by simp
  from transfer9_rollback [OF top9_maps withdraw9_top d deposit9_below_top] show ?thesis
    by (simp add: bank_top9_def)
qed

lemma withdraw9_top': "withdraw9 (top9 1 top) ulp_and_half = Inr (top9 1 below_top)"
  by (simp add: withdraw9_def top9_def ulp_and_half_positive top_not_lt_ulp_and_half
      top_sub_ulp_and_half)

lemma deposit9_top': "deposit9 (top9 2 top) ulp_and_half = Inl DecimalOverflow"
  by (simp add: deposit9_def top9_def ulp_and_half_positive top_add_ulp_and_half)

lemma deposit9_below_top': "deposit9 (top9 1 below_top) ulp_and_half = Inl DecimalOverflow"
  by (simp add: deposit9_def top9_def ulp_and_half_positive below_top_add_ulp_and_half)

lemma transfer9_top':
  "transfer9 bank_top9 1 2 ulp_and_half
     = (Some DecimalOverflow, [(1, top9 1 below_top), (2, top9 2 top)])"
proof -
  have d: "deposit9 (if (2::int) = 1 then top9 1 below_top else top9 2 top) ulp_and_half
      = Inl DecimalOverflow"
    using deposit9_top' by simp
  from transfer9_rollback_raises [OF top9_maps withdraw9_top' d deposit9_below_top']
  show ?thesis
    by (simp add: bank_top9_def)
qed

lemma withdraw9_small:
  "withdraw9 (top9 1 half_ulp) half_ulp = Inr (top9 1 (Decimal 0 999971))"
  by (simp add: withdraw9_def top9_def half_ulp_positive half_ulp_not_lt_half_ulp
      half_ulp_sub_half_ulp)

lemma deposit9_small:
  "deposit9 (top9 1 (Decimal 0 999971)) half_ulp = Inr (top9 1 half_ulp)"
  by (simp add: deposit9_def top9_def half_ulp_positive zero_add_half_ulp)

lemma small9_exact:
  "exact_in_context (exact_sub (balance (top9 1 half_ulp)) half_ulp)"
  "exact_in_context (exact_add (balance (top9 1 (Decimal 0 999971))) half_ulp)"
  by (simp_all add: top9_def dec_sub_exact_iff [OF half_ulp_sub_half_ulp]
      dec_add_exact_iff [OF zero_add_half_ulp] val_zero_coeff)

lemma withdraw10_top: "withdraw10 (top10 1 top) half_ulp = Inr (top10 1 below_top)"
  by (simp add: withdraw10_def top10_def half_ulp_positive top_sub_half_ulp neg_zero_top
      below_top_not_lt_zero)

lemma deposit10_top: "deposit10 (top10 2 top) half_ulp = Inl DecimalOverflow"
  by (simp add: deposit10_def top10_def half_ulp_positive top_add_half_ulp)

section \<open>Bank: the claims\<close>

lemma withdraw9_Inr_sub:
  assumes "withdraw9 a amount = Inr a'"
  shows "dec_sub (balance a) amount = Inr (balance a')"
  using assms by (auto simp: withdraw9_def split: if_splits sum.splits)

lemma deposit9_Inr_add:
  assumes "deposit9 a amount = Inr a'"
  shows "dec_add (balance a) amount = Inr (balance a')"
  using assms by (auto simp: deposit9_def split: if_splits sum.splits)

lemma withdraw10_Inr_sub:
  assumes "withdraw10 a amount = Inr a'"
  shows "dec_sub (balance10 a) amount = Inr (balance10 a')"
  using assms by (auto simp: withdraw10_def split: if_splits sum.splits)

lemma deposit10_Inr_add:
  assumes "deposit10 a amount = Inr a'"
  shows "dec_add (balance10 a) amount = Inr (balance10 a')"
  using assms by (auto simp: deposit10_def split: if_splits sum.splits)

lemma transfer9_moves:
  assumes "map_of bank from_id = Some a" and "map_of bank to_id = Some b"
    and "from_id \<noteq> to_id" and "0 < val amount" and "val amount \<le> val (balance a)"
    and "exact_in_context (exact_sub (balance a) amount)"
    and "exact_in_context (exact_add (balance b) amount)"
  shows "\<exists>bank' sa sb. transfer9 bank from_id to_id amount = (None, bank')
     \<and> get_balance9 bank' from_id = Inr sa \<and> val sa = val (balance a) - val amount
     \<and> get_balance9 bank' to_id = Inr sb \<and> val sb = val (balance b) + val amount
     \<and> (\<forall>k. k \<noteq> from_id \<and> k \<noteq> to_id \<longrightarrow> map_of bank' k = map_of bank k)"
proof -
  from withdraw9_exact [OF assms(4,5,6)] obtain r
    where r: "withdraw9 a amount = Inr (a\<lparr>balance := r\<rparr>)"
      "val r = val (balance a) - val amount"
    by blast
  from deposit9_exact [OF assms(4,7)] obtain s
    where s: "deposit9 b amount = Inr (b\<lparr>balance := s\<rparr>)"
      "val s = val (balance b) + val amount"
    by blast
  define bank' where
    "bank' = AList.update to_id (b\<lparr>balance := s\<rparr>) (AList.update from_id (a\<lparr>balance := r\<rparr>) bank)"
  from assms(3) s(1)
  have d: "deposit9 (if to_id = from_id then a\<lparr>balance := r\<rparr> else b) amount
      = Inr (b\<lparr>balance := s\<rparr>)"
    by auto
  have t: "transfer9 bank from_id to_id amount = (None, bank')"
    unfolding bank'_def by (rule transfer9_returns [OF assms(1,2) r(1) d])
  have ga: "get_balance9 bank' from_id = Inr r"
    using assms(3) by (simp add: bank'_def get_balance9_def get_account9_def AList.update_conv')
  have gb: "get_balance9 bank' to_id = Inr s"
    by (simp add: bank'_def get_balance9_def get_account9_def AList.update_conv')
  have rest: "\<forall>k. k \<noteq> from_id \<and> k \<noteq> to_id \<longrightarrow> map_of bank' k = map_of bank k"
    by (simp add: bank'_def AList.update_conv')
  from t ga gb rest r(2) s(2) show ?thesis
    by blast
qed

lemma transfer10_moves:
  assumes "map_of bank from_id = Some a" and "map_of bank to_id = Some b"
    and "from_id \<noteq> to_id" and "0 < val amount"
    and "- val (overdraft_limit a) \<le> val (balance10 a) - val amount"
    and "exact_in_context (exact_neg (overdraft_limit a))"
    and "exact_in_context (exact_sub (balance10 a) amount)"
    and "exact_in_context (exact_add (balance10 b) amount)"
  shows "\<exists>bank' sa sb. transfer10 bank from_id to_id amount = (None, bank')
     \<and> map_option balance10 (map_of bank' from_id) = Some sa
     \<and> val sa = val (balance10 a) - val amount
     \<and> map_option balance10 (map_of bank' to_id) = Some sb
     \<and> val sb = val (balance10 b) + val amount
     \<and> (\<forall>k. k \<noteq> from_id \<and> k \<noteq> to_id \<longrightarrow> map_of bank' k = map_of bank k)"
proof -
  from withdraw10_exact [OF assms(4,5,7,6)] obtain r
    where r: "withdraw10 a amount = Inr (a\<lparr>balance10 := r\<rparr>)"
      "val r = val (balance10 a) - val amount"
    by blast
  from deposit10_exact [OF assms(4,8)] obtain s
    where s: "deposit10 b amount = Inr (b\<lparr>balance10 := s\<rparr>)"
      "val s = val (balance10 b) + val amount"
    by blast
  define bank' where
    "bank' = AList.update to_id (b\<lparr>balance10 := s\<rparr>)
       (AList.update from_id (a\<lparr>balance10 := r\<rparr>) bank)"
  from assms(3) s(1)
  have d: "deposit10 (if to_id = from_id then a\<lparr>balance10 := r\<rparr> else b) amount
      = Inr (b\<lparr>balance10 := s\<rparr>)"
    by auto
  have t: "transfer10 bank from_id to_id amount = (None, bank')"
    unfolding bank'_def by (rule transfer10_returns [OF assms(1,2) r(1) d])
  have ga: "map_option balance10 (map_of bank' from_id) = Some r"
    using assms(3) by (simp add: bank'_def AList.update_conv')
  have gb: "map_option balance10 (map_of bank' to_id) = Some s"
    by (simp add: bank'_def AList.update_conv')
  have rest: "\<forall>k. k \<noteq> from_id \<and> k \<noteq> to_id \<longrightarrow> map_of bank' k = map_of bank k"
    by (simp add: bank'_def AList.update_conv')
  from t ga gb rest r(2) s(2) show ?thesis
    by blast
qed

text \<open>
  C1 as stated fails: a balance is a \<open>Decimal\<close> under a context of 28 significant
  digits, and a difference or sum that needs more digits is rounded.  In the bank with
  \<open>1E+30\<close> on account 1 and \<open>0\<close> on account 2, the transfer of \<open>0.01\<close> from 1 to 2 is
  a transfer between distinct existing accounts of a positive amount the source can pay;
  it returns, account 2 holds \<open>0.01\<close>, and account 1 holds
  \<open>1.000000000000000000000000000E+30\<close>, its balance before and not that balance lowered
  by the amount (both lessons).
\<close>

theorem transfer_moves_exact_amount_counterexample:
  "map_of bank_rich9 1 = Some rich9 \<and> map_of bank_rich9 2 = Some poor9
   \<and> 0 < val cent \<and> val cent \<le> val (balance rich9)
   \<and> transfer9 bank_rich9 1 2 cent
       = (None, [(1, rich9\<lparr>balance := Decimal 1000000000000000000000000000 3\<rparr>),
                 (2, poor9\<lparr>balance := cent\<rparr>)])
   \<and> val (Decimal 1000000000000000000000000000 3) = val (balance rich9)
   \<and> val (Decimal 1000000000000000000000000000 3) \<noteq> val (balance rich9) - val cent
   \<and> map_of bank_rich10 1 = Some rich10 \<and> map_of bank_rich10 2 = Some poor10
   \<and> - val (overdraft_limit rich10) \<le> val (balance10 rich10) - val cent
   \<and> transfer10 bank_rich10 1 2 cent
       = (None, [(1, rich10\<lparr>balance10 := Decimal 1000000000000000000000000000 3\<rparr>),
                 (2, poor10\<lparr>balance10 := cent\<rparr>)])
   \<and> val (Decimal 1000000000000000000000000000 3) = val (balance10 rich10)
   \<and> val (Decimal 1000000000000000000000000000 3) \<noteq> val (balance10 rich10) - val cent"
proof -
  have v: "0 < val cent" "val cent \<le> val (balance rich9)"
    "val (Decimal 1000000000000000000000000000 3) = val (balance rich9)"
    "val (Decimal 1000000000000000000000000000 3) \<noteq> val (balance rich9) - val cent"
    "- val (overdraft_limit rich10) \<le> val (balance10 rich10) - val cent"
    "val (Decimal 1000000000000000000000000000 3) = val (balance10 rich10)"
    "val (Decimal 1000000000000000000000000000 3) \<noteq> val (balance10 rich10) - val cent"
    by (simp_all add: val_def cent_def rich9_def rich10_def)
  from rich9_maps rich10_maps transfer9_rich transfer10_rich v show ?thesis
    by simp
qed

text \<open>
  C1, amended.  A transfer between two distinct existing accounts, of an amount \<open>> 0\<close>
  that the source can pay (\<open>balance \<ge> amount\<close> in lesson 9,
  \<open>balance - amount \<ge> -overdraft_limit\<close> in lesson 10), returns normally when the
  difference \<open>source balance - amount\<close> and the sum \<open>destination balance + amount\<close>
  are exact in the context of 28 digits (in lesson 10 also the negated overdraft limit);
  afterwards the source balance is lower by exactly \<open>amount\<close>, the destination balance
  is higher by exactly \<open>amount\<close>, and every other account is as it was.
\<close>

theorem transfer_moves_exact_amount:
  "(map_of bank from_id = Some a \<and> map_of bank to_id = Some b \<and> from_id \<noteq> to_id
      \<and> 0 < val amount \<and> val amount \<le> val (balance a)
      \<and> exact_in_context (exact_sub (balance a) amount)
      \<and> exact_in_context (exact_add (balance b) amount) \<longrightarrow>
    (\<exists>bank' sa sb. transfer9 bank from_id to_id amount = (None, bank')
       \<and> get_balance9 bank' from_id = Inr sa \<and> val sa = val (balance a) - val amount
       \<and> get_balance9 bank' to_id = Inr sb \<and> val sb = val (balance b) + val amount
       \<and> (\<forall>k. k \<noteq> from_id \<and> k \<noteq> to_id \<longrightarrow> map_of bank' k = map_of bank k)))
   \<and>
   (map_of bankx fromx = Some ax \<and> map_of bankx tox = Some bx \<and> fromx \<noteq> tox
      \<and> 0 < val amountx
      \<and> - val (overdraft_limit ax) \<le> val (balance10 ax) - val amountx
      \<and> exact_in_context (exact_neg (overdraft_limit ax))
      \<and> exact_in_context (exact_sub (balance10 ax) amountx)
      \<and> exact_in_context (exact_add (balance10 bx) amountx) \<longrightarrow>
    (\<exists>bank' sa sb. transfer10 bankx fromx tox amountx = (None, bank')
       \<and> map_option balance10 (map_of bank' fromx) = Some sa
       \<and> val sa = val (balance10 ax) - val amountx
       \<and> map_option balance10 (map_of bank' tox) = Some sb
       \<and> val sb = val (balance10 bx) + val amountx
       \<and> (\<forall>k. k \<noteq> fromx \<and> k \<noteq> tox \<longrightarrow> map_of bank' k = map_of bankx k)))"
  using transfer9_moves [of bank from_id a to_id b amount]
    transfer10_moves [of bankx fromx ax tox bx amountx]
  by blast

theorem transfer_moves_exact_amount_witness:
  "(map_of bank_l9 1 = Some alice \<and> map_of bank_l9 2 = Some bob \<and> (1::int) \<noteq> 2
      \<and> 0 < val (Decimal 20 0) \<and> val (Decimal 20 0) \<le> val (balance alice)
      \<and> exact_in_context (exact_sub (balance alice) (Decimal 20 0))
      \<and> exact_in_context (exact_add (balance bob) (Decimal 20 0)))
   \<and> (\<exists>bank' sa sb. transfer9 bank_l9 1 2 (Decimal 20 0) = (None, bank')
       \<and> get_balance9 bank' 1 = Inr sa \<and> val sa = 80
       \<and> get_balance9 bank' 2 = Inr sb \<and> val sb = 70)
   \<and> (map_of bank_l10 1 = Some acc_a \<and> map_of bank_l10 2 = Some acc_b
      \<and> 0 < val (Decimal 40 0)
      \<and> - val (overdraft_limit acc_a) \<le> val (balance10 acc_a) - val (Decimal 40 0)
      \<and> exact_in_context (exact_neg (overdraft_limit acc_a))
      \<and> exact_in_context (exact_sub (balance10 acc_a) (Decimal 40 0))
      \<and> exact_in_context (exact_add (balance10 acc_b) (Decimal 40 0)))
   \<and> (\<exists>bank' sa sb. transfer10 bank_l10 1 2 (Decimal 40 0) = (None, bank')
       \<and> map_option balance10 (map_of bank' 1) = Some sa \<and> val sa = 60
       \<and> map_option balance10 (map_of bank' 2) = Some sb \<and> val sb = 40)"
proof -
  note e9 = doctest9_exact
  have h9: "map_of bank_l9 1 = Some alice \<and> map_of bank_l9 2 = Some bob \<and> (1::int) \<noteq> 2
      \<and> 0 < val (Decimal 20 0) \<and> val (Decimal 20 0) \<le> val (balance alice)"
    by (simp add: bank_l9_def alice_def val_def)
  note e10 = doctest10_exact
  have h10: "map_of bank_l10 1 = Some acc_a \<and> map_of bank_l10 2 = Some acc_b
      \<and> (1::int) \<noteq> 2 \<and> 0 < val (Decimal 40 0)
      \<and> - val (overdraft_limit acc_a) \<le> val (balance10 acc_a) - val (Decimal 40 0)"
    by (simp add: bank_l10_def acc_a_def val_def)
  have b9: "val (balance alice) - val (Decimal 20 0) = 80"
    "val (balance bob) + val (Decimal 20 0) = 70"
    by (simp_all add: alice_def bob_def val_def)
  have b10: "val (balance10 acc_a) - val (Decimal 40 0) = 60"
    "val (balance10 acc_b) + val (Decimal 40 0) = 40"
    by (simp_all add: acc_a_def acc_b_def val_def)
  from transfer_moves_exact_amount
    [of bank_l9 1 alice 2 bob "Decimal 20 0" bank_l10 1 acc_a 2 acc_b "Decimal 40 0"]
    h9 e9 h10 e10
  have "(\<exists>bank' sa sb. transfer9 bank_l9 1 2 (Decimal 20 0) = (None, bank')
       \<and> get_balance9 bank' 1 = Inr sa
       \<and> val sa = val (balance alice) - val (Decimal 20 0)
       \<and> get_balance9 bank' 2 = Inr sb
       \<and> val sb = val (balance bob) + val (Decimal 20 0))
     \<and> (\<exists>bank' sa sb. transfer10 bank_l10 1 2 (Decimal 40 0) = (None, bank')
       \<and> map_option balance10 (map_of bank' 1) = Some sa
       \<and> val sa = val (balance10 acc_a) - val (Decimal 40 0)
       \<and> map_option balance10 (map_of bank' 2) = Some sb
       \<and> val sb = val (balance10 acc_b) + val (Decimal 40 0))"
    by blast
  with h9 e9 h10 e10 show ?thesis
    unfolding b9 b10 by blast
qed

text \<open>
  C3.  \<open>transfer\<close> requires a positive amount: for \<open>amount \<le> 0\<close> and any ids it raises
  \<open>ValueError\<close> and the bank is unchanged (both lessons).
\<close>

theorem transfer_rejects_nonpositive:
  assumes "val amount \<le> 0"
  shows "transfer9 bank from_id to_id amount = (Some ValueError, bank)
     \<and> transfer10 bankx fromx tox amount = (Some ValueError, bankx)"
  using assms
  by (simp add: transfer9_def transfer10_def dec_le_zero_val)

theorem transfer_rejects_nonpositive_witness:
  "val (Decimal (- 5) 0) \<le> 0
   \<and> transfer9 bank_l9 1 2 (Decimal (- 5) 0) = (Some ValueError, bank_l9)
   \<and> transfer10 bank_l10 1 7 (Decimal (- 5) 0) = (Some ValueError, bank_l10)"
proof -
  have h: "val (Decimal (- 5) 0) \<le> 0"
    by (simp add: val_def)
  show ?thesis
    using h transfer_rejects_nonpositive [OF h, of bank_l9 1 2 bank_l10 1 7]
    by simp
qed

text \<open>
  C2 as stated fails in lesson 9, whose rollback deposits the amount back.  With
  \<open>9.999999999999999999999999999E+999999\<close> on both accounts, the withdrawal of
  \<open>5E+999971\<close> from account 1 rounds to the next lower balance, the deposit on
  account 2 raises \<open>decimal.Overflow\<close>, and the compensating deposit rounds back down:
  \<open>transfer\<close> raises \<open>RuntimeError\<close> and leaves account 1 one unit in the last place
  below its balance before the call.  With the amount \<open>1.5E+999972\<close> the compensating
  deposit overflows as well, and \<open>transfer\<close> raises \<open>decimal.Overflow\<close>, not
  \<open>RuntimeError\<close>, leaving account 1 debited.
\<close>

theorem transfer_rolls_back_counterexample:
  "map_of bank_top9 1 = Some (top9 1 top) \<and> map_of bank_top9 2 = Some (top9 2 top)
   \<and> 0 < val half_ulp \<and> val half_ulp \<le> val (balance (top9 1 top))
   \<and> withdraw9 (top9 1 top) half_ulp = Inr (top9 1 below_top)
   \<and> deposit9 (top9 2 top) half_ulp = Inl DecimalOverflow
   \<and> transfer9 bank_top9 1 2 half_ulp
       = (Some RuntimeError, [(1, top9 1 below_top), (2, top9 2 top)])
   \<and> get_balance9 [(1, top9 1 below_top), (2, top9 2 top)] 1 = Inr below_top
   \<and> val below_top < val (balance (top9 1 top))
   \<and> 0 < val ulp_and_half \<and> val ulp_and_half \<le> val (balance (top9 1 top))
   \<and> withdraw9 (top9 1 top) ulp_and_half = Inr (top9 1 below_top)
   \<and> deposit9 (top9 2 top) ulp_and_half = Inl DecimalOverflow
   \<and> transfer9 bank_top9 1 2 ulp_and_half
       = (Some DecimalOverflow, [(1, top9 1 below_top), (2, top9 2 top)])"
proof -
  have p: "0 < val half_ulp" "0 < val ulp_and_half"
    by (simp_all add: val_pos_iff half_ulp_def ulp_and_half_def)
  have le: "val half_ulp \<le> val (balance (top9 1 top))"
    "val ulp_and_half \<le> val (balance (top9 1 top))"
    using half_ulp_le_top ulp_and_half_le_top by (simp_all add: top9_def dec_le_iff)
  have lt: "val below_top < val (balance (top9 1 top))"
    using below_top_lt_top by (simp add: top9_def dec_lt_iff)
  have g: "get_balance9 [(1, top9 1 below_top), (2, top9 2 top)] 1 = Inr below_top"
    by (simp add: get_balance9_def get_account9_def top9_def)
  from top9_maps p le lt g withdraw9_top deposit9_top transfer9_top
    withdraw9_top' deposit9_top' transfer9_top'
  show ?thesis
    by simp
qed

text \<open>
  C2, amended.  If the deposit step raises after the source has been debited (both
  accounts exist, \<open>src.withdraw\<close> returned, and the call in the \<open>try\<close> block raises some
  \<open>e\<close>): in lesson 10 \<open>transfer\<close> raises \<open>RuntimeError\<close> and the source balance, with
  the whole bank, is as before the call, the saved balance being assigned back.  In
  lesson 9, when the compensating \<open>src.deposit\<close> returns, \<open>transfer\<close> raises
  \<open>RuntimeError\<close>, and the source balance equals its balance before the call when the
  withdrawal and the compensating deposit are exact in the context of 28 digits.
\<close>

theorem transfer_rolls_back:
  "(map_of bank from_id = Some a \<and> map_of bank to_id = Some b
      \<and> withdraw9 a amount = Inr a'
      \<and> deposit9 (if to_id = from_id then a' else b) amount = Inl e
      \<and> deposit9 a' amount = Inr a'' \<longrightarrow>
    transfer9 bank from_id to_id amount = (Some RuntimeError, AList.update from_id a'' bank)
      \<and> get_balance9 (AList.update from_id a'' bank) from_id = Inr (balance a'')
      \<and> (exact_in_context (exact_sub (balance a) amount)
           \<and> exact_in_context (exact_add (balance a') amount)
          \<longrightarrow> val (balance a'') = val (balance a)))
   \<and>
   (map_of bankx fromx = Some ax \<and> map_of bankx tox = Some bx
      \<and> withdraw10 ax amountx = Inr ax'
      \<and> deposit10 (if tox = fromx then ax' else bx) amountx = Inl ex \<longrightarrow>
    transfer10 bankx fromx tox amountx = (Some RuntimeError, bankx)
      \<and> map_option balance10 (map_of bankx fromx) = Some (balance10 ax))"
proof (intro conjI impI)
  assume h: "map_of bank from_id = Some a \<and> map_of bank to_id = Some b
      \<and> withdraw9 a amount = Inr a'
      \<and> deposit9 (if to_id = from_id then a' else b) amount = Inl e
      \<and> deposit9 a' amount = Inr a''"
  then have m: "map_of bank from_id = Some a" "map_of bank to_id = Some b"
    and w: "withdraw9 a amount = Inr a'"
    and d: "deposit9 (if to_id = from_id then a' else b) amount = Inl e"
    and r: "deposit9 a' amount = Inr a''"
    by simp_all
  show "transfer9 bank from_id to_id amount
      = (Some RuntimeError, AList.update from_id a'' bank)"
    by (rule transfer9_rollback [OF m w d r])
  show "get_balance9 (AList.update from_id a'' bank) from_id = Inr (balance a'')"
    by (simp add: get_balance9_def get_account9_def AList.update_conv')
  assume "exact_in_context (exact_sub (balance a) amount)
      \<and> exact_in_context (exact_add (balance a') amount)"
  then have "val (balance a') = val (balance a) - val amount"
    and "val (balance a'') = val (balance a') + val amount"
    using dec_sub_exact_iff [OF withdraw9_Inr_sub [OF w]]
      dec_add_exact_iff [OF deposit9_Inr_add [OF r]]
    by simp_all
  then show "val (balance a'') = val (balance a)"
    by simp
next
  assume h: "map_of bankx fromx = Some ax \<and> map_of bankx tox = Some bx
      \<and> withdraw10 ax amountx = Inr ax'
      \<and> deposit10 (if tox = fromx then ax' else bx) amountx = Inl ex"
  then have m: "map_of bankx fromx = Some ax" "map_of bankx tox = Some bx"
    and w: "withdraw10 ax amountx = Inr ax'"
    and d: "deposit10 (if tox = fromx then ax' else bx) amountx = Inl ex"
    by simp_all
  show "transfer10 bankx fromx tox amountx = (Some RuntimeError, bankx)"
    by (rule transfer10_rollback [OF m w d])
  from m show "map_option balance10 (map_of bankx fromx) = Some (balance10 ax)"
    by simp
qed

theorem transfer_rolls_back_witness:
  "(map_of bank_small9 1 = Some (top9 1 half_ulp) \<and> map_of bank_small9 2 = Some (top9 2 top)
      \<and> withdraw9 (top9 1 half_ulp) half_ulp = Inr (top9 1 (Decimal 0 999971))
      \<and> deposit9 (top9 2 top) half_ulp = Inl DecimalOverflow
      \<and> deposit9 (top9 1 (Decimal 0 999971)) half_ulp = Inr (top9 1 half_ulp)
      \<and> exact_in_context (exact_sub (balance (top9 1 half_ulp)) half_ulp)
      \<and> exact_in_context (exact_add (balance (top9 1 (Decimal 0 999971))) half_ulp))
   \<and> transfer9 bank_small9 1 2 half_ulp = (Some RuntimeError, bank_small9)
   \<and> get_balance9 bank_small9 1 = Inr half_ulp
   \<and> (map_of bank_top10 1 = Some (top10 1 top) \<and> map_of bank_top10 2 = Some (top10 2 top)
      \<and> withdraw10 (top10 1 top) half_ulp = Inr (top10 1 below_top)
      \<and> deposit10 (top10 2 top) half_ulp = Inl DecimalOverflow)
   \<and> transfer10 bank_top10 1 2 half_ulp = (Some RuntimeError, bank_top10)
   \<and> map_option balance10 (map_of bank_top10 1) = Some top"
proof -
  have u9: "AList.update 1 (top9 1 half_ulp) bank_small9 = bank_small9"
    by (simp add: bank_small9_def)
  have b9: "balance (top9 1 half_ulp) = half_ulp"
    by (simp add: top9_def)
  have b10: "balance10 (top10 1 top) = top"
    by (simp add: top10_def)
  from transfer_rolls_back [of bank_small9 1 "top9 1 half_ulp" 2 "top9 2 top" half_ulp
      "top9 1 (Decimal 0 999971)" DecimalOverflow "top9 1 half_ulp"
      bank_top10 1 "top10 1 top" 2 "top10 2 top" half_ulp "top10 1 below_top" DecimalOverflow]
    small9_maps withdraw9_small deposit9_top deposit9_small top10_maps withdraw10_top
    deposit10_top
  have "transfer9 bank_small9 1 2 half_ulp
        = (Some RuntimeError, AList.update 1 (top9 1 half_ulp) bank_small9)
      \<and> get_balance9 (AList.update 1 (top9 1 half_ulp) bank_small9) 1
        = Inr (balance (top9 1 half_ulp))
      \<and> transfer10 bank_top10 1 2 half_ulp = (Some RuntimeError, bank_top10)
      \<and> map_option balance10 (map_of bank_top10 1) = Some (balance10 (top10 1 top))"
    by simp
  with small9_maps withdraw9_small deposit9_top deposit9_small small9_exact top10_maps
    withdraw10_top deposit10_top
  show ?thesis
    unfolding u9 b9 b10 by simp
qed

text \<open>
  C10 as stated fails, on the transfer that refutes C1: with \<open>1E+30\<close> on account 1 and
  \<open>0\<close> on account 2, the transfer of \<open>0.01\<close> returns and the sum of all balances has
  grown by \<open>0.01\<close> (both lessons).
\<close>

theorem transfer_conserves_total_counterexample:
  "fst (transfer9 bank_rich9 1 2 cent) = None
   \<and> total9 (snd (transfer9 bank_rich9 1 2 cent)) = total9 bank_rich9 + val cent
   \<and> total9 (snd (transfer9 bank_rich9 1 2 cent)) \<noteq> total9 bank_rich9
   \<and> fst (transfer10 bank_rich10 1 2 cent) = None
   \<and> total10 (snd (transfer10 bank_rich10 1 2 cent)) = total10 bank_rich10 + val cent
   \<and> total10 (snd (transfer10 bank_rich10 1 2 cent)) \<noteq> total10 bank_rich10"
proof -
  have s9: "total9 [(1, rich9\<lparr>balance := Decimal 1000000000000000000000000000 3\<rparr>),
      (2, poor9\<lparr>balance := cent\<rparr>)] = total9 bank_rich9 + val cent"
    by (simp add: total9_def bank_rich9_def rich9_def poor9_def val_def)
  have s10: "total10 [(1, rich10\<lparr>balance10 := Decimal 1000000000000000000000000000 3\<rparr>),
      (2, poor10\<lparr>balance10 := cent\<rparr>)] = total10 bank_rich10 + val cent"
    by (simp add: total10_def bank_rich10_def rich10_def poor10_def val_def)
  have p: "0 < val cent"
    by (simp add: val_pos_iff cent_def)
  from p show ?thesis
    unfolding transfer9_rich transfer10_rich by (simp add: s9 s10)
qed

lemma transfer9_early_raise:
  assumes "map_of bank from_id = None \<or> map_of bank to_id = None \<or> val amount \<le> 0
     \<or> (map_of bank from_id = Some a \<and> withdraw9 a amount = Inl e)"
  shows "snd (transfer9 bank from_id to_id amount) = bank"
  using assms
  by (auto simp: transfer9_def get_account9_def dec_le_zero_val split: option.splits)

lemma transfer9_conserves_exact:
  assumes m: "map_of bank from_id = Some a" "map_of bank to_id = Some b"
    and w: "withdraw9 a amount = Inr a'"
    and ew: "exact_in_context (exact_sub (balance a) amount)"
    and ed: "exact_in_context (exact_add (balance (if to_id = from_id then a' else b)) amount)
       \<or> (deposit9 (if to_id = from_id then a' else b) amount = Inl e
           \<and> exact_in_context (exact_add (balance a') amount))"
  shows "total9 (snd (transfer9 bank from_id to_id amount)) = total9 bank"
proof -
  define d where "d = (if to_id = from_id then a' else b)"
  define bank1 where "bank1 = AList.update from_id a' bank"
  from withdraw9_Inr [OF w] have pos: "0 < val amount"
    by (simp add: dec_le_zero_val)
  have va': "val (balance a') = val (balance a) - val amount"
    using ew dec_sub_exact_iff [OF withdraw9_Inr_sub [OF w]] by simp
  have t1: "total9 bank1 = total9 bank - val amount"
    unfolding bank1_def using total9_update [OF m(1), of a'] va' by simp
  have md: "map_of bank1 to_id = Some d"
    using m(2) by (simp add: bank1_def d_def AList.update_conv')
  have ma: "map_of bank1 from_id = Some a'"
    by (simp add: bank1_def AList.update_conv')
  from ed have "exact_in_context (exact_add (balance d) amount)
       \<or> (deposit9 d amount = Inl e \<and> exact_in_context (exact_add (balance a') amount))"
    by (simp add: d_def)
  then show ?thesis
  proof
    assume "exact_in_context (exact_add (balance d) amount)"
    from deposit9_exact [OF pos this] obtain s
      where s: "deposit9 d amount = Inr (d\<lparr>balance := s\<rparr>)"
        "val s = val (balance d) + val amount"
      by blast
    from s(1) have "deposit9 (if to_id = from_id then a' else b) amount
        = Inr (d\<lparr>balance := s\<rparr>)"
      by (simp add: d_def)
    from transfer9_returns [OF m w this]
    have "snd (transfer9 bank from_id to_id amount)
        = AList.update to_id (d\<lparr>balance := s\<rparr>) bank1"
      by (simp add: bank1_def)
    then show ?thesis
      using total9_update [OF md, of "d\<lparr>balance := s\<rparr>"] s(2) t1 by simp
  next
    assume r: "deposit9 d amount = Inl e \<and> exact_in_context (exact_add (balance a') amount)"
    from deposit9_exact [OF pos conjunct2 [OF r]] obtain s
      where s: "deposit9 a' amount = Inr (a'\<lparr>balance := s\<rparr>)"
        "val s = val (balance a') + val amount"
      by blast
    from r have "deposit9 (if to_id = from_id then a' else b) amount = Inl e"
      by (simp add: d_def)
    from transfer9_rollback [OF m w this s(1)]
    have "snd (transfer9 bank from_id to_id amount)
        = AList.update from_id (a'\<lparr>balance := s\<rparr>) bank"
      by simp
    then show ?thesis
      using total9_update [OF m(1), of "a'\<lparr>balance := s\<rparr>"] s(2) va' by simp
  qed
qed

lemma transfer10_conserves_exact:
  assumes m: "map_of bank from_id = Some a" "map_of bank to_id = Some b"
    and w: "withdraw10 a amount = Inr a'"
    and ew: "exact_in_context (exact_sub (balance10 a) amount)"
    and ed: "exact_in_context (exact_add (balance10 (if to_id = from_id then a' else b)) amount)"
  shows "total10 (snd (transfer10 bank from_id to_id amount)) = total10 bank"
proof -
  define d where "d = (if to_id = from_id then a' else b)"
  define bank1 where "bank1 = AList.update from_id a' bank"
  from withdraw10_Inr [OF w] have pos: "0 < val amount"
    by (simp add: dec_le_zero_val)
  have va': "val (balance10 a') = val (balance10 a) - val amount"
    using ew dec_sub_exact_iff [OF withdraw10_Inr_sub [OF w]] by simp
  have t1: "total10 bank1 = total10 bank - val amount"
    unfolding bank1_def using total10_update [OF m(1), of a'] va' by simp
  have md: "map_of bank1 to_id = Some d"
    using m(2) by (simp add: bank1_def d_def AList.update_conv')
  from ed have "exact_in_context (exact_add (balance10 d) amount)"
    by (simp add: d_def)
  from deposit10_exact [OF pos this] obtain s
    where s: "deposit10 d amount = Inr (d\<lparr>balance10 := s\<rparr>)"
      "val s = val (balance10 d) + val amount"
    by blast
  from s(1) have "deposit10 (if to_id = from_id then a' else b) amount
      = Inr (d\<lparr>balance10 := s\<rparr>)"
    by (simp add: d_def)
  from transfer10_returns [OF m w this]
  have "snd (transfer10 bank from_id to_id amount)
      = AList.update to_id (d\<lparr>balance10 := s\<rparr>) bank1"
    by (simp add: bank1_def)
  then show ?thesis
    using total10_update [OF md, of "d\<lparr>balance10 := s\<rparr>"] s(2) t1 by simp
qed

text \<open>
  C10, amended.  \<open>transfer\<close> conserves the total money in the bank (the sum of the
  values of all balances), also when \<open>from_id = to_id\<close>, in these cases.  Lesson 9: when
  the call raises before it mutates (an account is missing, \<open>amount \<le> 0\<close>, or
  \<open>src.withdraw\<close> raises); and when \<open>src.withdraw\<close> returns, provided the withdrawal is
  exact in the context of 28 digits and either the deposit is exact (the call returns)
  or the deposit raises and the compensating deposit is exact (the rollback).  Lesson
  10: whenever the call raises, the rollback included; and when it returns, provided
  the withdrawal and the deposit are exact.
\<close>

theorem transfer_conserves_total:
  "(map_of bank from_id = None \<or> map_of bank to_id = None \<or> val amount \<le> 0
      \<or> (map_of bank from_id = Some c \<and> withdraw9 c amount = Inl e0)
    \<longrightarrow> total9 (snd (transfer9 bank from_id to_id amount)) = total9 bank)
   \<and>
   (map_of bank from_id = Some a \<and> map_of bank to_id = Some b
      \<and> withdraw9 a amount = Inr a'
      \<and> exact_in_context (exact_sub (balance a) amount)
      \<and> (exact_in_context (exact_add (balance (if to_id = from_id then a' else b)) amount)
          \<or> (deposit9 (if to_id = from_id then a' else b) amount = Inl e
              \<and> exact_in_context (exact_add (balance a') amount)))
    \<longrightarrow> total9 (snd (transfer9 bank from_id to_id amount)) = total9 bank)
   \<and>
   (fst (transfer10 bankx fromx tox amountx) \<noteq> None
    \<longrightarrow> total10 (snd (transfer10 bankx fromx tox amountx)) = total10 bankx)
   \<and>
   (map_of bankx fromx = Some ax \<and> map_of bankx tox = Some bx
      \<and> withdraw10 ax amountx = Inr ax'
      \<and> exact_in_context (exact_sub (balance10 ax) amountx)
      \<and> exact_in_context (exact_add (balance10 (if tox = fromx then ax' else bx)) amountx)
    \<longrightarrow> total10 (snd (transfer10 bankx fromx tox amountx)) = total10 bankx)"
proof (intro conjI impI)
  assume "map_of bank from_id = None \<or> map_of bank to_id = None \<or> val amount \<le> 0
      \<or> (map_of bank from_id = Some c \<and> withdraw9 c amount = Inl e0)"
  from transfer9_early_raise [OF this]
  show "total9 (snd (transfer9 bank from_id to_id amount)) = total9 bank"
    by simp
next
  assume "map_of bank from_id = Some a \<and> map_of bank to_id = Some b
      \<and> withdraw9 a amount = Inr a'
      \<and> exact_in_context (exact_sub (balance a) amount)
      \<and> (exact_in_context (exact_add (balance (if to_id = from_id then a' else b)) amount)
          \<or> (deposit9 (if to_id = from_id then a' else b) amount = Inl e
              \<and> exact_in_context (exact_add (balance a') amount)))"
  then show "total9 (snd (transfer9 bank from_id to_id amount)) = total9 bank"
    using transfer9_conserves_exact [of bank from_id a to_id b amount a' e] by blast
next
  assume "fst (transfer10 bankx fromx tox amountx) \<noteq> None"
  from transfer10_raises_unchanged [OF this]
  show "total10 (snd (transfer10 bankx fromx tox amountx)) = total10 bankx"
    by simp
next
  assume "map_of bankx fromx = Some ax \<and> map_of bankx tox = Some bx
      \<and> withdraw10 ax amountx = Inr ax'
      \<and> exact_in_context (exact_sub (balance10 ax) amountx)
      \<and> exact_in_context (exact_add (balance10 (if tox = fromx then ax' else bx)) amountx)"
  then show "total10 (snd (transfer10 bankx fromx tox amountx)) = total10 bankx"
    using transfer10_conserves_exact [of bankx fromx ax tox bx amountx ax'] by blast
qed

theorem transfer_conserves_total_witness:
  "(map_of bank_l9 1 = Some alice \<and> map_of bank_l9 2 = Some bob
      \<and> withdraw9 alice (Decimal 20 0) = Inr (alice\<lparr>balance := Decimal 80 0\<rparr>)
      \<and> exact_in_context (exact_sub (balance alice) (Decimal 20 0))
      \<and> exact_in_context (exact_add (balance bob) (Decimal 20 0)))
   \<and> total9 (snd (transfer9 bank_l9 1 2 (Decimal 20 0))) = total9 bank_l9
   \<and> (map_of bank_small9 1 = Some (top9 1 half_ulp) \<and> map_of bank_small9 2 = Some (top9 2 top)
      \<and> withdraw9 (top9 1 half_ulp) half_ulp = Inr (top9 1 (Decimal 0 999971))
      \<and> exact_in_context (exact_sub (balance (top9 1 half_ulp)) half_ulp)
      \<and> deposit9 (top9 2 top) half_ulp = Inl DecimalOverflow
      \<and> exact_in_context (exact_add (balance (top9 1 (Decimal 0 999971))) half_ulp))
   \<and> total9 (snd (transfer9 bank_small9 1 2 half_ulp)) = total9 bank_small9
   \<and> map_of bank_l9 3 = None
   \<and> total9 (snd (transfer9 bank_l9 1 3 (Decimal 20 0))) = total9 bank_l9
   \<and> fst (transfer10 bank_top10 1 2 half_ulp) = Some RuntimeError
   \<and> total10 (snd (transfer10 bank_top10 1 2 half_ulp)) = total10 bank_top10
   \<and> (map_of bank_l10 1 = Some acc_a \<and> map_of bank_l10 2 = Some acc_b
      \<and> withdraw10 acc_a (Decimal 40 0) = Inr (acc_a\<lparr>balance10 := Decimal 60 0\<rparr>)
      \<and> exact_in_context (exact_sub (balance10 acc_a) (Decimal 40 0))
      \<and> exact_in_context (exact_add (balance10 acc_b) (Decimal 40 0)))
   \<and> total10 (snd (transfer10 bank_l10 1 2 (Decimal 40 0))) = total10 bank_l10"
proof -
  have m9: "map_of bank_l9 1 = Some alice" "map_of bank_l9 2 = Some bob"
    "map_of bank_l9 3 = None"
    by (simp_all add: bank_l9_def)
  have m10: "map_of bank_l10 1 = Some acc_a" "map_of bank_l10 2 = Some acc_b"
    by (simp_all add: bank_l10_def)
  have d10: "deposit10 (if (2::int) = 1 then top10 1 below_top else top10 2 top) half_ulp
      = Inl DecimalOverflow"
    using deposit10_top by simp
  have r10: "fst (transfer10 bank_top10 1 2 half_ulp) = Some RuntimeError"
    using transfer10_rollback [OF top10_maps withdraw10_top d10] by simp
  have returns: "total9 (snd (transfer9 bank_l9 1 2 (Decimal 20 0))) = total9 bank_l9
      \<and> total10 (snd (transfer10 bank_l10 1 2 (Decimal 40 0))) = total10 bank_l10"
    using transfer_conserves_total [of bank_l9 1 2 "Decimal 20 0" alice DecimalOverflow
        alice bob "alice\<lparr>balance := Decimal 80 0\<rparr>" DecimalOverflow
        bank_l10 1 2 "Decimal 40 0" acc_a acc_b "acc_a\<lparr>balance10 := Decimal 60 0\<rparr>"]
      m9 m10 doctest9_withdraw doctest9_exact doctest10_withdraw doctest10_exact
    by simp
  have rolls_back: "total9 (snd (transfer9 bank_small9 1 2 half_ulp)) = total9 bank_small9
      \<and> total10 (snd (transfer10 bank_top10 1 2 half_ulp)) = total10 bank_top10"
    using transfer_conserves_total [of bank_small9 1 2 half_ulp "top9 1 half_ulp"
        DecimalOverflow "top9 1 half_ulp" "top9 2 top" "top9 1 (Decimal 0 999971)"
        DecimalOverflow bank_top10 1 2 half_ulp "top10 1 top" "top10 2 top"
        "top10 1 below_top"]
      small9_maps withdraw9_small small9_exact deposit9_top r10
    by simp
  have raises: "total9 (snd (transfer9 bank_l9 1 3 (Decimal 20 0))) = total9 bank_l9"
    using transfer_conserves_total [of bank_l9 1 3 "Decimal 20 0" alice DecimalOverflow
        alice bob alice DecimalOverflow bank_l10 1 2 "Decimal 40 0" acc_a acc_b acc_a]
      m9
    by simp
  from returns rolls_back raises m9 m10 r10 doctest9_withdraw doctest9_exact
    doctest10_withdraw doctest10_exact(2,3) small9_maps withdraw9_small small9_exact
    deposit9_top
  show ?thesis
    by simp
qed

text \<open>
  C4 as stated fails twice.  In lesson 10 a missing account raises that file's
  \<open>AccountNotFoundError\<close>, which derives from \<open>BankError\<close> and not from \<open>KeyError\<close>; and in
  lesson 9 \<open>transfer\<close> with a missing id and \<open>amount \<le> 0\<close> raises \<open>ValueError\<close> before any
  lookup.
\<close>

theorem missing_account_counterexample:
  "get10 [] 7 = Inl AccountNotFoundError10
   \<and> \<not> derives AccountNotFoundError10 KeyError
   \<and> \<not> derives AccountNotFoundError10 LookupError
   \<and> transfer9 [] 7 8 dec_zero = (Some ValueError, [])
   \<and> \<not> derives ValueError KeyError"
  by (simp add: get10_def derives_def transfer9_def dec_le_zero_val val_dec_zero)

text \<open>
  C4, amended.  For an account id \<open>k\<close> not present in the bank: in lesson 9
  \<open>get_account\<close>, \<open>deposit\<close>, \<open>withdraw\<close> and \<open>get_balance\<close> raise \<open>AccountNotFoundError\<close>, a
  subclass of \<open>KeyError\<close> (hence of \<open>LookupError\<close>), and so does \<open>transfer\<close> with \<open>k\<close> as
  source or destination when \<open>amount > 0\<close>; in lesson 10 \<open>get\<close>, \<open>deposit\<close>, \<open>withdraw\<close> and
  \<open>transfer\<close> (\<open>amount > 0\<close>) raise that lesson's \<open>AccountNotFoundError\<close>, which derives from
  \<open>BankError\<close> and \<open>Exception\<close> but not from \<open>KeyError\<close>.  The bank is unchanged.
\<close>

theorem missing_account_errors:
  "(map_of bank k = None \<longrightarrow>
      get_account9 bank k = Inl AccountNotFoundError9
    \<and> bank_deposit9 bank k amount = Inl AccountNotFoundError9
    \<and> bank_withdraw9 bank k amount = Inl AccountNotFoundError9
    \<and> get_balance9 bank k = Inl AccountNotFoundError9
    \<and> (0 < val amount \<longrightarrow>
         transfer9 bank k other amount = (Some AccountNotFoundError9, bank)
       \<and> transfer9 bank other k amount = (Some AccountNotFoundError9, bank))
    \<and> derives AccountNotFoundError9 KeyError
    \<and> derives AccountNotFoundError9 LookupError)
   \<and>
   (map_of bankx k = None \<longrightarrow>
      get10 bankx k = Inl AccountNotFoundError10
    \<and> bank_deposit10 bankx k amount = Inl AccountNotFoundError10
    \<and> bank_withdraw10 bankx k amount = Inl AccountNotFoundError10
    \<and> (0 < val amount \<longrightarrow>
         transfer10 bankx k other amount = (Some AccountNotFoundError10, bankx)
       \<and> transfer10 bankx other k amount = (Some AccountNotFoundError10, bankx))
    \<and> derives AccountNotFoundError10 BankError
    \<and> derives AccountNotFoundError10 Exception
    \<and> \<not> derives AccountNotFoundError10 KeyError)"
  by (auto simp: get_account9_def bank_deposit9_def bank_withdraw9_def get_balance9_def
      transfer9_def derives_def get10_def bank_deposit10_def bank_withdraw10_def
      transfer10_def dec_le_zero_val
      split: option.splits sum.splits)

theorem missing_account_errors_witness:
  "map_of bank_l9 3 = None
   \<and> get_account9 bank_l9 3 = Inl AccountNotFoundError9
   \<and> bank_deposit9 bank_l9 3 (Decimal 5 0) = Inl AccountNotFoundError9
   \<and> 0 < val (Decimal 5 0)
   \<and> transfer9 bank_l9 1 3 (Decimal 5 0) = (Some AccountNotFoundError9, bank_l9)
   \<and> map_of bank_l10 3 = None
   \<and> get10 bank_l10 3 = Inl AccountNotFoundError10
   \<and> transfer10 bank_l10 3 1 (Decimal 5 0) = (Some AccountNotFoundError10, bank_l10)"
proof -
  have h9: "map_of bank_l9 3 = None"
    by (simp add: bank_l9_def)
  have h10: "map_of bank_l10 3 = None"
    by (simp add: bank_l10_def)
  have p: "0 < val (Decimal 5 0)"
    by (simp add: val_def)
  from missing_account_errors [of bank_l9 3 "Decimal 5 0" 1 bank_l10] h9 h10 p
  show ?thesis
    by blast
qed

section \<open>Binary search tree: lemmas and the claim\<close>

lemma search_node_iff: "bst_ok n \<Longrightarrow> search_node n k \<longleftrightarrow> k \<in> set (inorder_node n)"
  by (induction n) auto

lemma inorder_fst: "map fst (inorder_with_counts_node n) = inorder_node n"
  by (induction n) auto

lemma insert_node_ignore:
  "search_node n k \<Longrightarrow> insert_node ''ignore'' k n = Inr n"
  by (induction n) (auto split: if_splits)

lemma insert_node_error:
  "search_node n k \<Longrightarrow> insert_node ''error'' k n = Inl ValueError"
  by (induction n) (auto split: if_splits)

lemma bump_other: "k \<notin> fst ` set ps \<Longrightarrow> map (bump k) ps = ps"
  by (induction ps) (auto simp: bump_def)

lemma insert_node_count:
  "bst_ok n \<Longrightarrow> search_node n k \<Longrightarrow> pol \<noteq> ''ignore'' \<Longrightarrow> pol \<noteq> ''error'' \<Longrightarrow>
   \<exists>n'. insert_node pol k n = Inr n' \<and> inorder_node n' = inorder_node n
     \<and> inorder_with_counts_node n' = map (bump k) (inorder_with_counts_node n) \<and> bst_ok n'"
proof (induction n)
  case Nil_node
  then show ?case by simp
next
  case (BSTNode ck l r c)
  have nl: "k \<le> ck \<Longrightarrow> k \<notin> fst ` set (inorder_with_counts_node r)"
  proof
    assume "k \<le> ck" "k \<in> fst ` set (inorder_with_counts_node r)"
    then have "k \<in> set (inorder_node r)" using inorder_fst[of r] by (metis set_map)
    then show False using BSTNode.prems(1) \<open>k \<le> ck\<close> by auto
  qed
  have nr: "ck \<le> k \<Longrightarrow> k \<notin> fst ` set (inorder_with_counts_node l)"
  proof
    assume "ck \<le> k" "k \<in> fst ` set (inorder_with_counts_node l)"
    then have "k \<in> set (inorder_node l)" using inorder_fst[of l] by (metis set_map)
    then show False using BSTNode.prems(1) \<open>ck \<le> k\<close> by auto
  qed
  show ?case
  proof (cases "k = ck")
    case True
    then show ?thesis using BSTNode.prems nl nr
      by (simp add: bump_other) (simp add: bump_def)
  next
    case False
    show ?thesis
    proof (cases "k < ck")
      case True
      then obtain n' where "insert_node pol k l = Inr n'" "inorder_node n' = inorder_node l"
        "inorder_with_counts_node n' = map (bump k) (inorder_with_counts_node l)" "bst_ok n'"
        using BSTNode by auto
      then show ?thesis using True False BSTNode.prems nl
        by (simp add: bump_other) (simp add: bump_def)
    next
      case F2: False
      then obtain n' where "insert_node pol k r = Inr n'" "inorder_node n' = inorder_node r"
        "inorder_with_counts_node n' = map (bump k) (inorder_with_counts_node r)" "bst_ok n'"
        using BSTNode False by auto
      then show ?thesis using F2 False BSTNode.prems nr
        by (simp add: bump_other) (simp add: bump_def)
    qed
  qed
qed

lemma insert_node_new:
  "\<not> search_node n k \<Longrightarrow>
   \<exists>n'. insert_node pol k n = Inr n'
     \<and> mset (inorder_with_counts_node n') = add_mset (k, 1) (mset (inorder_with_counts_node n))
     \<and> set (inorder_node n') = Set.insert k (set (inorder_node n))
     \<and> search_node n' k"
proof (induction n)
  case Nil_node
  then show ?case by simp
next
  case (BSTNode ck l r c)
  from BSTNode.prems have ne: "k \<noteq> ck" by (simp split: if_splits)
  show ?case
  proof (cases "k < ck")
    case True
    with BSTNode.prems ne have "\<not> search_node l k" by simp
    from BSTNode.IH(1)[OF this] obtain n' where
      "insert_node pol k l = Inr n'"
      "mset (inorder_with_counts_node n') = add_mset (k, 1) (mset (inorder_with_counts_node l))"
      "set (inorder_node n') = Set.insert k (set (inorder_node l))" "search_node n' k"
      by blast
    then show ?thesis using True ne by (simp add: insert_commute)
  next
    case False
    with BSTNode.prems ne have "\<not> search_node r k" by simp
    from BSTNode.IH(2)[OF this] obtain n' where
      "insert_node pol k r = Inr n'"
      "mset (inorder_with_counts_node n') = add_mset (k, 1) (mset (inorder_with_counts_node r))"
      "set (inorder_node n') = Set.insert k (set (inorder_node r))" "search_node n' k"
      by blast
    then show ?thesis using False ne by (simp add: insert_commute)
  qed
qed

lemma insert_node_bst_ok:
  "bst_ok n \<Longrightarrow> insert_node pol k n = Inr n' \<Longrightarrow>
   bst_ok n' \<and> set (inorder_node n') = Set.insert k (set (inorder_node n))"
proof (induction n arbitrary: n')
  case Nil_node
  then show ?case by auto
next
  case (BSTNode ck l r c)
  show ?case
  proof (cases "k = ck")
    case True
    with BSTNode.prems show ?thesis by (auto split: if_splits)
  next
    case ne: False
    show ?thesis
    proof (cases "k < ck")
      case True
      with ne BSTNode.prems(2) obtain l' where l': "insert_node pol k l = Inr l'"
        and n': "n' = BSTNode ck l' r c"
        by (auto split: sum.splits)
      from BSTNode.IH(1)[OF _ l'] BSTNode.prems(1)
      have "bst_ok l'" "set (inorder_node l') = Set.insert k (set (inorder_node l))" by simp_all
      then show ?thesis using n' True BSTNode.prems(1) by auto
    next
      case False
      with ne BSTNode.prems(2) obtain r' where r': "insert_node pol k r = Inr r'"
        and n': "n' = BSTNode ck l r' c"
        by (auto split: sum.splits)
      from BSTNode.IH(2)[OF _ r'] BSTNode.prems(1)
      have "bst_ok r'" "set (inorder_node r') = Set.insert k (set (inorder_node r))" by simp_all
      then show ?thesis using n' False ne BSTNode.prems(1) by auto
    qed
  qed
qed

text \<open>
  C5.  Duplicate keys follow the configured policy.  For a search tree and a key already
  present: \<open>insert\<close> under "ignore" returns and leaves the tree unchanged; under "error"
  it raises \<open>ValueError\<close> (tree unchanged); under "count" it adds one to that key's
  count and leaves the keys and every other count unchanged.  For a key not present,
  \<open>insert\<close> returns under every policy and adds the key with count 1.  Presence is
  what \<open>search\<close> returns, which on a search tree is membership in the keys.
\<close>

theorem insert_duplicate_policy:
  assumes "bst_ok (root t)"
  shows "(search_bst t k \<longleftrightarrow> k \<in> set (inorder_bst t))
   \<and> (search_bst t k \<and> on_duplicate t = ''ignore'' \<longrightarrow> insert_bst t k = Inr t)
   \<and> (search_bst t k \<and> on_duplicate t = ''error'' \<longrightarrow> insert_bst t k = Inl ValueError)
   \<and> (search_bst t k \<and> on_duplicate t = ''count'' \<longrightarrow>
        (\<exists>t'. insert_bst t k = Inr t' \<and> inorder_bst t' = inorder_bst t
           \<and> inorder_with_counts_bst t' = map (bump k) (inorder_with_counts_bst t)
           \<and> on_duplicate t' = on_duplicate t \<and> bst_ok (root t')))
   \<and> (\<not> search_bst t k \<longrightarrow>
        (\<exists>t'. insert_bst t k = Inr t' \<and> search_bst t' k
           \<and> set (inorder_bst t') = Set.insert k (set (inorder_bst t))
           \<and> mset (inorder_with_counts_bst t')
               = add_mset (k, 1) (mset (inorder_with_counts_bst t))
           \<and> on_duplicate t' = on_duplicate t \<and> bst_ok (root t')))"
proof (intro conjI impI)
  show "search_bst t k \<longleftrightarrow> k \<in> set (inorder_bst t)"
    using assms by (simp add: search_bst_def inorder_bst_def search_node_iff)
next
  assume "search_bst t k \<and> on_duplicate t = ''ignore''"
  then show "insert_bst t k = Inr t"
    by (simp add: insert_bst_def search_bst_def insert_node_ignore)
next
  assume "search_bst t k \<and> on_duplicate t = ''error''"
  then show "insert_bst t k = Inl ValueError"
    by (simp add: insert_bst_def search_bst_def insert_node_error)
next
  assume a: "search_bst t k \<and> on_duplicate t = ''count''"
  then have "search_node (root t) k" by (simp add: search_bst_def)
  from insert_node_count [OF assms this, of "on_duplicate t"] a
  obtain n' where n': "insert_node (on_duplicate t) k (root t) = Inr n'"
    "inorder_node n' = inorder_node (root t)"
    "inorder_with_counts_node n' = map (bump k) (inorder_with_counts_node (root t))"
    "bst_ok n'"
    by auto
  show "\<exists>t'. insert_bst t k = Inr t' \<and> inorder_bst t' = inorder_bst t
           \<and> inorder_with_counts_bst t' = map (bump k) (inorder_with_counts_bst t)
           \<and> on_duplicate t' = on_duplicate t \<and> bst_ok (root t')"
    using n' by (simp add: insert_bst_def inorder_bst_def inorder_with_counts_bst_def)
next
  assume "\<not> search_bst t k"
  then have ns: "\<not> search_node (root t) k" by (simp add: search_bst_def)
  from insert_node_new [OF ns, of "on_duplicate t"]
  obtain n' where n': "insert_node (on_duplicate t) k (root t) = Inr n'"
    "mset (inorder_with_counts_node n')
       = add_mset (k, 1) (mset (inorder_with_counts_node (root t)))"
    "set (inorder_node n') = Set.insert k (set (inorder_node (root t)))"
    "search_node n' k"
    by blast
  from insert_node_bst_ok [OF assms n'(1)] have "bst_ok n'" by simp
  then show "\<exists>t'. insert_bst t k = Inr t' \<and> search_bst t' k
           \<and> set (inorder_bst t') = Set.insert k (set (inorder_bst t))
           \<and> mset (inorder_with_counts_bst t')
               = add_mset (k, 1) (mset (inorder_with_counts_bst t))
           \<and> on_duplicate t' = on_duplicate t \<and> bst_ok (root t')"
    using n' by (simp add: insert_bst_def inorder_bst_def inorder_with_counts_bst_def
        search_bst_def)
qed

theorem insert_duplicate_policy_witness:
  "bst_ok doctest_root \<and> bst_ok doctest_root2
   \<and> search_bst \<lparr>root = doctest_root, on_duplicate = ''ignore''\<rparr> 4
   \<and> insert_bst \<lparr>root = doctest_root, on_duplicate = ''ignore''\<rparr> 4
       = Inr \<lparr>root = doctest_root, on_duplicate = ''ignore''\<rparr>
   \<and> insert_bst \<lparr>root = doctest_root, on_duplicate = ''error''\<rparr> 4 = Inl ValueError
   \<and> search_bst \<lparr>root = doctest_root2, on_duplicate = ''count''\<rparr> 2
   \<and> (\<exists>t'. insert_bst \<lparr>root = doctest_root2, on_duplicate = ''count''\<rparr> 2 = Inr t'
         \<and> inorder_with_counts_bst t' = [(1, 1), (2, 4)])
   \<and> \<not> search_bst \<lparr>root = doctest_root, on_duplicate = ''error''\<rparr> 10
   \<and> (\<exists>t'. insert_bst \<lparr>root = doctest_root, on_duplicate = ''error''\<rparr> 10 = Inr t'
         \<and> search_bst t' 10)"
proof -
  have ok1: "bst_ok doctest_root" by (simp add: doctest_root_def)
  have ok2: "bst_ok doctest_root2" by (simp add: doctest_root2_def)
  have s4: "search_node doctest_root 4" by (simp add: doctest_root_def)
  have s2: "search_node doctest_root2 2" by (simp add: doctest_root2_def)
  have s10: "\<not> search_node doctest_root 10" by (simp add: doctest_root_def)
  have c: "map (bump 2) (inorder_with_counts_node doctest_root2) = [(1, 1), (2, 4)]"
    by (simp add: doctest_root2_def bump_def)
  from insert_duplicate_policy [of "\<lparr>root = doctest_root, on_duplicate = ''ignore''\<rparr>" 4]
    insert_duplicate_policy [of "\<lparr>root = doctest_root, on_duplicate = ''error''\<rparr>" 4]
    insert_duplicate_policy [of "\<lparr>root = doctest_root2, on_duplicate = ''count''\<rparr>" 2]
    insert_duplicate_policy [of "\<lparr>root = doctest_root, on_duplicate = ''error''\<rparr>" 10]
    ok1 ok2 s4 s2 s10 c
  show ?thesis
    by (simp add: search_bst_def inorder_with_counts_bst_def) blast
qed

section \<open>Primes: lemmas and the claim\<close>

lemma isqrt_nat_bounds: "isqrt_nat n * isqrt_nat n \<le> n \<and> n < (isqrt_nat n + 1) * (isqrt_nat n + 1)"
proof (induction n)
  case 0
  then show ?case by simp
next
  case (Suc n)
  then show ?case by (auto simp: Let_def)
qed

lemma isqrt_bounds:
  assumes "0 \<le> n"
  shows "0 \<le> isqrt n" and "isqrt n * isqrt n \<le> n" and "n < (isqrt n + 1) * (isqrt n + 1)"
proof -
  let ?r = "isqrt_nat (nat n)"
  from isqrt_nat_bounds [of "nat n"]
  have a: "?r * ?r \<le> nat n" and b: "nat n < (?r + 1) * (?r + 1)" by simp_all
  show "0 \<le> isqrt n" by (simp add: isqrt_def)
  from a have "int (?r * ?r) \<le> int (nat n)" by (simp only: of_nat_le_iff)
  then show "isqrt n * isqrt n \<le> n" using assms by (simp add: isqrt_def)
  from b have "int (nat n) < int ((?r + 1) * (?r + 1))" by (simp only: of_nat_less_iff)
  then show "n < (isqrt n + 1) * (isqrt n + 1)" using assms by (simp add: isqrt_def algebra_simps)
qed

lemma no_small_divisor_imp_none:
  fixes n limit :: int
  assumes lim: "0 \<le> limit" "n < (limit + 1) * (limit + 1)"
    and small: "\<forall>d. 1 < d \<and> d \<le> limit \<longrightarrow> \<not> d dvd n"
    and d: "1 < d" "d < n" "d dvd n"
  shows False
proof -
  from d obtain e where e: "n = d * e" by (auto simp: dvd_def)
  from d e have "0 < d * e" and dpos: "0 < d" by simp_all
  then have "0 < e" by (simp add: zero_less_mult_iff)
  moreover from d e have "e \<noteq> 1" by auto
  ultimately have epos: "1 < e" by simp
  have "e dvd n" using e by simp
  from small d have "limit < d" by force
  moreover from small epos \<open>e dvd n\<close> have "limit < e" by force
  ultimately have "(limit + 1) * (limit + 1) \<le> d * e"
    using lim by (intro mult_mono) auto
  with e lim show False by simp
qed

lemma step_divisors:
  fixes n f d :: int
  assumes "f mod 6 = 5" "\<not> 2 dvd n" "\<not> 3 dvd n"
    and "\<forall>d. 1 < d \<and> d < f \<longrightarrow> \<not> d dvd n" "\<not> f dvd n" "\<not> (f + 2) dvd n"
    and "1 < d" "d < f + 6"
  shows "\<not> d dvd n"
proof
  assume dn: "d dvd n"
  with assms have "f \<le> d" "d \<noteq> f" "d \<noteq> f + 2" by (force, auto)
  with assms have cases: "d = f + 1 \<or> d = f + 3 \<or> d = f + 4 \<or> d = f + 5" by arith
  have "2 dvd d \<or> 3 dvd d" using cases assms(1) by presburger
  with dn assms(2,3) show False using dvd_trans by blast
qed

lemma is_prime_loop_correct:
  assumes "5 \<le> f" "f mod 6 = 5" "\<not> 2 dvd n" "\<not> 3 dvd n"
    and "0 \<le> limit" "limit * limit \<le> n" "n < (limit + 1) * (limit + 1)"
    and "\<forall>d. 1 < d \<and> d < f \<longrightarrow> \<not> d dvd n"
  shows "is_prime_loop n limit f \<longleftrightarrow> (\<forall>d. 1 < d \<and> d < n \<longrightarrow> \<not> d dvd n)"
  using assms
proof (induction n limit f rule: is_prime_loop.induct)
  case (1 n limit f)
  show ?case
  proof (cases "f \<le> limit")
    case False
    then have "is_prime_loop n limit f" by simp
    moreover have "\<forall>d. 1 < d \<and> d < n \<longrightarrow> \<not> d dvd n"
    proof (intro allI impI notI)
      fix d assume "1 < d \<and> d < n" "d dvd n"
      moreover have "\<forall>d. 1 < d \<and> d \<le> limit \<longrightarrow> \<not> d dvd n" using "1.prems"(8) False by auto
      ultimately show False
        using no_small_divisor_imp_none [of limit n d] "1.prems"(5,7) by blast
    qed
    ultimately show ?thesis by blast
  next
    case True
    have "f * f \<le> limit * limit" using True "1.prems"(1) by (intro mult_mono) auto
    then have ff: "f * f \<le> n" using "1.prems"(6) by simp
    have "5 * f \<le> f * f" using "1.prems"(1) by simp
    with ff have fn: "f + 2 < n" using "1.prems"(1) by linarith
    show ?thesis
    proof (cases "n mod f = 0 \<or> n mod (f + 2) = 0")
      case hit: True
      then have "f dvd n \<or> (f + 2) dvd n" by (simp add: mod_eq_0_iff_dvd)
      moreover have "1 < f \<and> f < n" "1 < f + 2 \<and> f + 2 < n"
        using fn "1.prems"(1) by simp_all
      ultimately have "\<not> (\<forall>d. 1 < d \<and> d < n \<longrightarrow> \<not> d dvd n)" by blast
      moreover have "\<not> is_prime_loop n limit f" using True hit by simp
      ultimately show ?thesis by blast
    next
      case miss: False
      then have nd: "\<not> f dvd n" "\<not> (f + 2) dvd n" by (simp_all add: mod_eq_0_iff_dvd)
      have inv: "\<forall>d. 1 < d \<and> d < f + 6 \<longrightarrow> \<not> d dvd n"
        using step_divisors [OF "1.prems"(2,3,4,8) nd] by blast
      have m: "(f + 6) mod 6 = 5" using "1.prems"(2) by presburger
      have "is_prime_loop n limit (f + 6) \<longleftrightarrow> (\<forall>d. 1 < d \<and> d < n \<longrightarrow> \<not> d dvd n)"
        using "1.IH" [OF True miss _ m "1.prems"(3,4,5,6,7) inv] "1.prems"(1) by simp
      moreover have "is_prime_loop n limit f = is_prime_loop n limit (f + 6)"
        using True miss by simp
      ultimately show ?thesis by simp
    qed
  qed
qed

lemma is_prime_iff: "is_prime n \<longleftrightarrow> prime_spec n"
proof -
  consider "n \<le> 1" | "n = 2" | "n = 3" | "3 < n" "2 dvd n \<or> 3 dvd n"
    | "3 < n" "\<not> 2 dvd n" "\<not> 3 dvd n" by fastforce
  then show ?thesis
  proof cases
    case 1
    then show ?thesis by (simp add: is_prime_def prime_spec_def)
  next
    case 2
    then show ?thesis by (auto simp: is_prime_def prime_spec_def)
  next
    case 3
    have "prime_spec 3" unfolding prime_spec_def
    proof (intro conjI allI impI)
      fix d :: int assume "1 < d \<and> d < 3"
      then have "d = 2" by arith
      then show "\<not> d dvd 3" by simp
    qed simp
    with 3 show ?thesis by (simp add: is_prime_def)
  next
    case 4
    moreover have "1 < (2::int) \<and> 2 < n" "1 < (3::int) \<and> 3 < n" using 4(1) by simp_all
    ultimately have "\<not> prime_spec n" unfolding prime_spec_def by blast
    moreover have "\<not> is_prime n" using 4 by (auto simp: is_prime_def mod_eq_0_iff_dvd)
    ultimately show ?thesis by simp
  next
    case 5
    have small: "\<forall>d::int. 1 < d \<and> d < 5 \<longrightarrow> \<not> d dvd n"
    proof (intro allI impI)
      fix d :: int assume "1 < d \<and> d < 5"
      then have "d = 2 \<or> d = 3 \<or> d = 4" by arith
      moreover have "\<not> 4 dvd n" using 5(2) by presburger
      ultimately show "\<not> d dvd n" using 5 by auto
    qed
    from 5 have n0: "0 \<le> n" by simp
    have "is_prime_loop n (isqrt n) 5 \<longleftrightarrow> (\<forall>d. 1 < d \<and> d < n \<longrightarrow> \<not> d dvd n)"
      by (rule is_prime_loop_correct [OF _ _ 5(2,3) isqrt_bounds [OF n0] small]) simp_all
    then show ?thesis using 5 by (simp add: is_prime_def prime_spec_def mod_eq_0_iff_dvd)
  qed
qed

lemma split_chunks_upto:
  assumes "1 \<le> b" "0 \<le> r" "r \<le> j + 1" "i \<le> j + 1"
  shows "concat (map span (split_chunks b r start [i..j]))
           = [start..start + (j + 1 - i) * b + max 0 (r - i) - 1]
       \<and> (\<forall>c \<in> set (split_chunks b r start [i..j]). fst c \<le> snd c)
       \<and> length (split_chunks b r start [i..j]) = nat (j + 1 - i)"
  using assms
proof (induction "nat (j + 1 - i)" arbitrary: i start)
  case 0
  then have "i = j + 1" by simp
  moreover from this 0 have "max 0 (r - i) = 0" by simp
  ultimately show ?case by simp
next
  case (Suc k)
  then have ij: "i \<le> j" by simp
  then have up: "[i..j] = i # [i + 1..j]" by (simp add: upto_rec1)
  define sz where "sz = b + (if i < r then 1 else 0)"
  define en where "en = start + sz - 1"
  define top where "top = start + (j + 1 - i) * b + max 0 (r - i) - 1"
  define rest where "rest = split_chunks b r (en + 1) [i + 1..j]"
  have unf: "split_chunks b r start [i..j] = (start, en) # rest"
    unfolding up rest_def en_def sz_def by (simp add: Let_def)
  have k: "k = nat (j + 1 - (i + 1))" using Suc.hyps(2) by simp
  have i1: "i + 1 \<le> j + 1" using ij by simp
  define q where "q = (j + 1 - (i + 1)) * b"
  define mr where "mr = max 0 (r - (i + 1))"
  from Suc.hyps(1) [OF k Suc.prems(1,2,3) i1, of "en + 1"]
  have IH: "concat (map span rest) = [en + 1..en + 1 + q + mr - 1]"
    "\<forall>c \<in> set rest. fst c \<le> snd c"
    "length rest = nat (j + 1 - (i + 1))"
    unfolding rest_def q_def mr_def by blast+
  have mx: "max 0 (r - i) = (if i < r then 1 else 0) + mr"
    unfolding mr_def by (simp add: max_def)
  have qq: "(j + 1 - i) * b = b + q" unfolding q_def by (simp add: algebra_simps)
  have tot: "en + 1 + q + mr - 1 = top"
    unfolding en_def sz_def top_def qq mx by simp
  have "1 \<le> sz" using Suc.prems(1) by (simp add: sz_def)
  then have se: "start \<le> en" by (simp add: en_def)
  have "0 \<le> q" unfolding q_def using ij Suc.prems(1) by simp
  moreover have "0 \<le> mr" unfolding mr_def by simp
  ultimately have ee: "en \<le> top" unfolding tot [symmetric] by linarith
  have "concat (map span (split_chunks b r start [i..j])) = [start..en] @ [en + 1..top]"
    unfolding unf using IH(1) unfolding tot by (simp add: span_def)
  also have "\<dots> = [start..top]"
    using upto_split2 [OF se ee] by simp
  finally have A: "concat (map span (split_chunks b r start [i..j])) = [start..top]" .
  have B: "\<forall>c \<in> set (split_chunks b r start [i..j]). fst c \<le> snd c"
    unfolding unf using IH(2) se by simp
  have C: "length (split_chunks b r start [i..j]) = nat (j + 1 - i)"
    unfolding unf using IH(3) ij by simp
  from A B C show ?case unfolding top_def by blast
qed

lemma split_range_partition:
  assumes "1 \<le> parts"
  shows "\<exists>chunks. split_range lo hi parts = Inr chunks
     \<and> concat (map span chunks) = [min lo hi..max lo hi]
     \<and> (\<forall>c \<in> set chunks. fst c \<le> snd c)
     \<and> int (length chunks) = min parts (max lo hi - min lo hi + 1)"
proof -
  define l where "l = min lo hi"
  define h where "h = max lo hi"
  define n where "n = h - l + 1"
  define m where "m = min parts n"
  have lh: "l \<le> h" by (simp add: l_def h_def)
  then have n1: "1 \<le> n" by (simp add: n_def)
  then have m1: "1 \<le> m" "m \<le> n" using assms by (simp_all add: m_def)
  have sw: "(if hi < lo then (hi, lo) else (lo, hi)) = (l, h)"
    by (auto simp: l_def h_def)
  have sr: "split_range lo hi parts = Inr (split_chunks (n div m) (n mod m) l [0..m - 1])"
    using assms lh unfolding split_range_def sw
    by (simp add: Let_def n_def m_def)
  have "0 < n div m" using m1 by (simp add: pos_imp_zdiv_pos_iff)
  then have b1: "1 \<le> n div m" by simp
  have r0: "0 \<le> n mod m" "n mod m < m" using m1 by simp_all
  have i0: "(0::int) \<le> m - 1 + 1" using m1 by simp
  have rm: "n mod m \<le> m - 1 + 1" using r0 by simp
  from split_chunks_upto [OF b1 r0(1) rm i0, of l]
  have P: "concat (map span (split_chunks (n div m) (n mod m) l [0..m - 1]))
        = [l..l + (m - 1 + 1 - 0) * (n div m) + max 0 (n mod m - 0) - 1]"
    "\<forall>c \<in> set (split_chunks (n div m) (n mod m) l [0..m - 1]). fst c \<le> snd c"
    "length (split_chunks (n div m) (n mod m) l [0..m - 1]) = nat (m - 1 + 1 - 0)"
    by blast+
  have e1: "m * (n div m) + n mod m = n" by simp
  have e2: "max 0 (n mod m - 0) = n mod m" using r0 by simp
  have e3: "m - 1 + 1 - 0 = m" by simp
  have "l + m * (n div m) + n mod m - 1 = l + (m * (n div m) + n mod m) - 1" by linarith
  also have "\<dots> = h" unfolding e1 by (simp add: n_def)
  finally have "l + m * (n div m) + n mod m - 1 = h" .
  with P(1) have Q: "concat (map span (split_chunks (n div m) (n mod m) l [0..m - 1])) = [l..h]"
    unfolding e2 e3 by (simp only:)
  have L: "int (length (split_chunks (n div m) (n mod m) l [0..m - 1])) = m"
    using P(3) m1 by simp
  have L': "int (length (split_chunks (n div m) (n mod m) l [0..m - 1]))
      = min parts (max lo hi - min lo hi + 1)"
    using L unfolding m_def n_def h_def l_def .
  have Q': "concat (map span (split_chunks (n div m) (n mod m) l [0..m - 1]))
      = [min lo hi..max lo hi]"
    using Q unfolding h_def l_def .
  from sr Q' P(2) L' show ?thesis by blast
qed

lemma concat_order_mset:
  assumes "mset order = mset [0..<length ranges]"
  shows "mset (concat (map (\<lambda>i. g (ranges ! i)) order)) = mset (concat (map g ranges))"
proof -
  have "mset (map (\<lambda>i. mset (g (ranges ! i))) order)
      = image_mset (\<lambda>i. mset (g (ranges ! i))) (mset order)" by simp
  also have "\<dots> = image_mset (\<lambda>i. mset (g (ranges ! i))) (mset [0..<length ranges])"
    by (simp only: assms)
  also have "\<dots> = mset (map (\<lambda>i. mset (g (ranges ! i))) [0..<length ranges])" by simp
  also have "map (\<lambda>i. mset (g (ranges ! i))) [0..<length ranges]
      = map (\<lambda>c. mset (g c)) (map (\<lambda>i. ranges ! i) [0..<length ranges])"
    by simp
  also have "\<dots> = map (\<lambda>c. mset (g c)) ranges" by (simp only: map_nth)
  finally have eq: "mset (map (\<lambda>i. mset (g (ranges ! i))) order)
      = mset (map (\<lambda>c. mset (g c)) ranges)" .
  have "mset (concat (map (\<lambda>i. g (ranges ! i)) order))
      = sum_list (map (\<lambda>i. mset (g (ranges ! i))) order)"
    by (simp add: mset_concat comp_def)
  also have "\<dots> = sum_mset (mset (map (\<lambda>i. mset (g (ranges ! i))) order))"
    by (simp only: sum_mset_sum_list)
  also have "\<dots> = sum_mset (mset (map (\<lambda>c. mset (g c)) ranges))" by (simp only: eq)
  also have "\<dots> = sum_list (map (\<lambda>c. mset (g c)) ranges)" by (simp only: sum_mset_sum_list)
  also have "\<dots> = mset (concat (map g ranges))" by (simp add: mset_concat comp_def)
  finally show ?thesis .
qed

lemma concat_workers:
  "concat (map prime_worker (map (\<lambda>(a, b). \<lparr>job_start = a, job_end = b\<rparr>) chunks))
     = filter is_prime (concat (map span chunks))"
  by (induction chunks) (auto simp: prime_worker_def span_def)

lemma threaded_primes_result:
  assumes "1 \<le> threads" and "split_range lo hi threads = Inr chunks"
    and "mset order = mset [0..<length chunks]"
  shows "threaded_primes order lo hi threads = Inr (filter prime_spec [min lo hi..max lo hi])"
proof -
  from split_range_partition [OF assms(1), of lo hi] assms(2)
  have cc: "concat (map span chunks) = [min lo hi..max lo hi]" by auto
  let ?res = "filter prime_spec [min lo hi..max lo hi]"
  let ?ranges = "map (\<lambda>(a, b). \<lparr>job_start = a, job_end = b\<rparr>) chunks"
  have pe: "filter is_prime [min lo hi..max lo hi] = ?res"
    by (rule filter_cong) (simp_all add: is_prime_iff)
  have ord: "mset order = mset [0..<length ?ranges]" using assms(3) by simp
  have "mset (concat (map (\<lambda>i. prime_worker (?ranges ! i)) order))
      = mset (concat (map prime_worker ?ranges))"
    by (rule concat_order_mset [OF ord])
  also have "\<dots> = mset ?res" by (simp only: concat_workers cc pe)
  finally have m: "mset ?res = mset (concat (map (\<lambda>i. prime_worker (?ranges ! i)) order))"
    by simp
  have s: "sorted ?res"
    using sorted_filter [of "\<lambda>x. x" "[min lo hi..max lo hi]" prime_spec] by simp
  have "sort (concat (map (\<lambda>i. prime_worker (?ranges ! i)) order)) = ?res"
    by (rule properties_for_sort [OF m s])
  then show ?thesis using assms(1,2) by (simp add: threaded_primes_def)
qed

text \<open>
  C9.  For \<open>threads \<ge> 1\<close>, \<open>split_range\<close> cuts the inclusive range
  \<open>[min lo hi, max lo hi]\<close> into consecutive non-empty chunks that together are exactly
  that range; \<open>is_prime n\<close> holds iff \<open>n > 1\<close> and \<open>n\<close> has no divisor strictly between 1
  and \<open>n\<close>; and in whatever order the workers complete, \<open>threaded_primes\<close> returns the
  ascending list, without repetition, of exactly the primes of that range.
\<close>

theorem threaded_primes_correct:
  assumes "1 \<le> threads"
  shows "(\<exists>chunks. split_range lo hi threads = Inr chunks
            \<and> concat (map span chunks) = [min lo hi..max lo hi]
            \<and> (\<forall>c \<in> set chunks. fst c \<le> snd c)
            \<and> (\<forall>order. mset order = mset [0..<length chunks] \<longrightarrow>
                  threaded_primes order lo hi threads
                    = Inr (filter prime_spec [min lo hi..max lo hi])))
     \<and> sorted (filter prime_spec [min lo hi..max lo hi])
     \<and> distinct (filter prime_spec [min lo hi..max lo hi])
     \<and> set (filter prime_spec [min lo hi..max lo hi])
          = {n. min lo hi \<le> n \<and> n \<le> max lo hi \<and> prime_spec n}
     \<and> (\<forall>n. is_prime n \<longleftrightarrow> prime_spec n)"
proof (intro conjI)
  from split_range_partition [OF assms, of lo hi]
  obtain chunks where c: "split_range lo hi threads = Inr chunks"
    "concat (map span chunks) = [min lo hi..max lo hi]"
    "\<forall>c \<in> set chunks. fst c \<le> snd c"
    by blast
  have "\<forall>order. mset order = mset [0..<length chunks] \<longrightarrow>
      threaded_primes order lo hi threads = Inr (filter prime_spec [min lo hi..max lo hi])"
    using threaded_primes_result [OF assms c(1)] by blast
  with c show "\<exists>chunks. split_range lo hi threads = Inr chunks
            \<and> concat (map span chunks) = [min lo hi..max lo hi]
            \<and> (\<forall>c \<in> set chunks. fst c \<le> snd c)
            \<and> (\<forall>order. mset order = mset [0..<length chunks] \<longrightarrow>
                  threaded_primes order lo hi threads
                    = Inr (filter prime_spec [min lo hi..max lo hi]))"
    by blast
next
  show "sorted (filter prime_spec [min lo hi..max lo hi])"
    using sorted_filter [of "\<lambda>x. x" "[min lo hi..max lo hi]" prime_spec] by simp
next
  show "distinct (filter prime_spec [min lo hi..max lo hi])" by simp
next
  show "set (filter prime_spec [min lo hi..max lo hi])
          = {n. min lo hi \<le> n \<and> n \<le> max lo hi \<and> prime_spec n}"
    by auto
next
  show "\<forall>n. is_prime n \<longleftrightarrow> prime_spec n" by (simp add: is_prime_iff)
qed

theorem threaded_primes_correct_witness:
  "(1::int) \<le> 3
   \<and> split_range 10 1 3 = Inr [(1, 4), (5, 7), (8, 10)]
   \<and> mset [2, 0, 1] = mset [0..<length [(1::int, 4::int), (5, 7), (8, 10)]]
   \<and> threaded_primes [2, 0, 1] 10 1 3 = Inr (filter prime_spec [min 10 1..max 10 1])
   \<and> threaded_primes [2, 0, 1] 10 1 3 = Inr [2, 3, 5, 7]"
proof -
  have h: "(1::int) \<le> 3" by simp
  have sr: "split_range 10 1 3 = Inr [(1, 4), (5, 7), (8, 10)]" by code_simp
  have "[0..<length [(1::int, 4::int), (5, 7), (8, 10)]] = [0, 1, 2]" by code_simp
  then have ms: "mset [2, 0, 1] = mset [0..<length [(1::int, 4::int), (5, 7), (8, 10)]]"
    by simp
  have ev: "threaded_primes [2, 0, 1] 10 1 3 = Inr [2, 3, 5, 7]" by code_simp
  from threaded_primes_correct [OF h, of 10 1]
  obtain chunks where c: "split_range 10 1 3 = Inr chunks"
    and r: "\<forall>order. mset order = mset [0..<length chunks] \<longrightarrow>
      threaded_primes order 10 1 3 = Inr (filter prime_spec [min 10 1..max 10 1])"
    by blast
  from c sr have "chunks = [(1, 4), (5, 7), (8, 10)]" by simp
  with r ms
  have "threaded_primes [2, 0, 1] 10 1 3 = Inr (filter prime_spec [min 10 1..max 10 1])"
    by blast
  with h sr ms ev show ?thesis by blast
qed

section \<open>Word count: lemmas and the claim\<close>

lemma worker_returns:
  "wordcount_worker tok (map (\<lambda>(l, w). Some l) ps @ [None]) local
     = Some (local + (\<Sum>p\<leftarrow>ps. mset (tok (fst p))))"
  by (induction ps arbitrary: local) (auto simp: add.assoc)

lemma worker_assigned:
  "wordcount_worker tok (worker_items lines sched i) {#} = Some (assigned tok lines sched i)"
  by (simp add: worker_items_def assigned_def worker_returns)

lemma merge_all:
  "merge_counters (map (\<lambda>i. Some (f i)) is) acc_total = Some (acc_total + (\<Sum>i\<leftarrow>is. f i))"
  by (induction "is" arbitrary: acc_total) (auto simp: add.assoc)

lemma fold_count: "fold (\<lambda>line acc_total. acc_total + mset (tok line)) lines acc
     = acc + (\<Sum>l\<leftarrow>lines. mset (tok l))"
  by (induction lines arbitrary: acc) (auto simp: add.assoc)

lemma pick_one_if:
  "(\<Sum>i\<leftarrow>[0..<n]. if w = i then (x::'a multiset) else {#}) = (if w < n then x else {#})"
  by (induction n) auto

lemma pick_one:
  "w < n \<Longrightarrow> (\<Sum>i\<leftarrow>[0..<n]. if w = i then (x::'a multiset) else {#}) = x"
  by (simp add: pick_one_if)

lemma assigned_total:
  assumes "length sched = length lines" and "\<forall>w \<in> set sched. w < n"
  shows "(\<Sum>i\<leftarrow>[0..<n]. assigned tok lines sched i) = (\<Sum>l\<leftarrow>lines. mset (tok l))"
  using assms
proof (induction lines arbitrary: sched)
  case Nil
  then show ?case by (simp add: assigned_def)
next
  case (Cons l ls)
  then obtain w ws where s: "sched = w # ws" by (cases sched) auto
  with Cons.prems have w: "w < n" and ws: "length ws = length ls" "\<forall>w \<in> set ws. w < n"
    by auto
  have "\<And>i. assigned tok (l # ls) (w # ws) i
      = (if w = i then mset (tok l) else {#}) + assigned tok ls ws i"
    by (simp add: assigned_def)
  then have "(\<Sum>i\<leftarrow>[0..<n]. assigned tok (l # ls) (w # ws) i)
      = (\<Sum>i\<leftarrow>[0..<n]. if w = i then mset (tok l) else {#})
        + (\<Sum>i\<leftarrow>[0..<n]. assigned tok ls ws i)"
    by (simp add: sum_list_addf)
  also have "\<dots> = mset (tok l) + (\<Sum>l\<leftarrow>ls. mset (tok l))"
    by (simp only: pick_one [OF w] Cons.IH [OF ws])
  finally show ?case by (simp add: s)
qed

lemma threaded_equals_sequential:
  assumes "1 \<le> threads" and "length sched = length lines"
    and "\<forall>w \<in> set sched. w < nat threads"
  shows "threaded_word_count tok threads lines sched = Inr (Some (sequential_count tok lines))"
proof -
  have "threaded_word_count tok threads lines sched
      = Inr (merge_counters (map (\<lambda>i. Some (assigned tok lines sched i)) [0..<nat threads]) {#})"
    using assms(1) unfolding threaded_word_count_def Let_def worker_assigned by simp
  also have "\<dots> = Inr (Some ({#} + (\<Sum>i\<leftarrow>[0..<nat threads]. assigned tok lines sched i)))"
    by (simp only: merge_all)
  also have "\<dots> = Inr (Some (sequential_count tok lines))"
    by (simp add: assigned_total [OF assms(2,3)] sequential_count_def fold_count)
  finally show ?thesis .
qed

text \<open>
  C7.  The threaded word counter equals a sequential count.  For every tokenizer,
  every list of lines, every number of workers \<open>threads \<ge> 1\<close> and every assignment of
  the lines to the workers (each line taken by exactly one worker), every worker
  returns at its sentinel, and merging the workers' local tables gives exactly the
  table of the sequential count; \<open>threaded_word_count\<close> returns it.
\<close>

theorem threaded_word_count_refines_sequential:
  assumes "1 \<le> threads" and "length sched = length lines"
    and "\<forall>w \<in> set sched. w < nat threads"
  shows "threaded_word_count tok threads lines sched = Inr (Some (sequential_count tok lines))
     \<and> (\<forall>i. wordcount_worker tok (worker_items lines sched i) {#}
              = Some (assigned tok lines sched i))
     \<and> merge_counters (map (\<lambda>i. Some (assigned tok lines sched i)) [0..<nat threads]) {#}
          = Some (sequential_count tok lines)"
proof (intro conjI allI)
  show "threaded_word_count tok threads lines sched = Inr (Some (sequential_count tok lines))"
    by (rule threaded_equals_sequential [OF assms])
  show "wordcount_worker tok (worker_items lines sched i) {#}
      = Some (assigned tok lines sched i)" for i
    by (rule worker_assigned)
  show "merge_counters (map (\<lambda>i. Some (assigned tok lines sched i)) [0..<nat threads]) {#}
      = Some (sequential_count tok lines)"
    by (simp add: merge_all assigned_total [OF assms(2,3)] sequential_count_def fold_count)
qed

theorem threaded_word_count_refines_sequential_witness:
  "(1::int) \<le> 2 \<and> length [1, 0 :: nat] = length demo_lines
   \<and> (1::nat) < nat 2 \<and> (0::nat) < nat 2
   \<and> threaded_word_count tokenize_ascii 2 demo_lines [1, 0]
       = Inr (Some (sequential_count tokenize_ascii demo_lines))
   \<and> sequential_count tokenize_ascii demo_lines
       = {#''one'', ''two'', ''two'', ''three'', ''two''#}"
proof -
  have h1: "(1::int) \<le> 2" by simp
  have h2: "length [1, 0 :: nat] = length demo_lines" by (simp add: demo_lines_def)
  have h3: "\<forall>w \<in> set [1, 0 :: nat]. w < nat 2" by simp
  have t1: "tokenize_ascii demo_line1 = [''one'', ''two'', ''two'']" by code_simp
  have t2: "tokenize_ascii demo_line2 = [''three'', ''two'']" by code_simp
  have s: "sequential_count tokenize_ascii demo_lines
       = {#''one'', ''two'', ''two'', ''three'', ''two''#}"
    by (simp add: sequential_count_def demo_lines_def t1 t2)
  have h4: "(1::nat) < nat 2 \<and> (0::nat) < nat 2" by simp
  from threaded_word_count_refines_sequential [OF h1 h2 h3, of tokenize_ascii] h1 h2 h4 s
  show ?thesis by blast
qed

section \<open>Roster: lemmas and the claim\<close>






section \<open>Dates: lemmas and the claim\<close>













end
